theory Spec2Isabelle
  imports Complex_Main "HOL-Library.Monad_Syntax"
begin

section \<open>Python values and exceptions\<close>

text \<open>
  The invoice OCR service is Python. Its functions raise exceptions, mutate dictionaries
  in place and call libraries (httpx, pydantic, pdf2image, FAISS, sentence-transformers).
  Every function of the repository is embedded as a HOL function that returns
  \<open>exn + 'a\<close> (\<open>Inl\<close> is a raised exception) and, where it has effects, the new state.
  Library functions whose code is not part of the repository are parameters, gathered in
  records of type \<open>env\<close> and \<open>index_env\<close>.
\<close>

text \<open>
  The exception classes the code raises, catches or lets through. All of them are
  subclasses of Python's \<open>Exception\<close>. \<open>OCRClientError\<close> carries its message and
  the exception it was raised \<open>from\<close> (its cause).
\<close>

datatype exn =
    ValueError string
  | KeyError
  | IndexError
  | TypeError
  | AttributeError
  | JSONDecodeError
  | AssertionError
  | OSError string
  | HTTPError string
  | ValidationError
  | Pdf2ImageError string
  | EmbedderError string
  | OCRClientError string "exn option"

text \<open>
  A Python \<open>float\<close>: a finite value (kept as the rational it denotes; the rounding of
  binary64 plays no part in what is proved), the two infinities and NaN, all of which
  \<open>json.loads\<close> can produce.
\<close>

datatype pyfloat = Fin rat | PosInf | NegInf | NaN

text \<open>The comparison \<open>x < 0\<close> on floats: false for NaN.\<close>

fun float_negative :: "pyfloat \<Rightarrow> bool" where
  "float_negative (Fin r) = (r < 0)"
| "float_negative PosInf = False"
| "float_negative NegInf = True"
| "float_negative NaN = False"

text \<open>
  The constraint \<open>ge=0\<close> on a float, \<open>x >= 0\<close>: false for minus infinity and for
  NaN, which pydantic refuses.
\<close>

fun float_ge0 :: "pyfloat \<Rightarrow> bool" where
  "float_ge0 (Fin r) = (0 \<le> r)"
| "float_ge0 PosInf = True"
| "float_ge0 NegInf = False"
| "float_ge0 NaN = False"

text \<open>
  The objects \<open>json.loads\<close> and \<open>response.json()\<close> return. A \<open>dict\<close> is an
  association list in insertion order; a lookup takes the first entry of a key.
\<close>

datatype json =
    JNull
  | JBool bool
  | JInt int
  | JFloat pyfloat
  | JStr string
  | JList "json list"
  | JDict "(string \<times> json) list"

text \<open>\<open>d.setdefault(k, v)\<close>: a key that is present keeps its value; a new key is appended.\<close>

definition setdefault :: "(string \<times> json) list \<Rightarrow> string \<Rightarrow> json \<Rightarrow> (string \<times> json) list" where
  "setdefault kvs k v = (case map_of kvs k of None \<Rightarrow> kvs @ [(k, v)] | Some _ \<Rightarrow> kvs)"

text \<open>
  Replacing the value stored under a key, in place. It stands for the mutation of a
  nested dictionary: the outer dictionary keeps the key where it is.
\<close>

fun dict_replace :: "(string \<times> json) list \<Rightarrow> string \<Rightarrow> json \<Rightarrow> (string \<times> json) list" where
  "dict_replace [] k v = []"
| "dict_replace ((k', v') # kvs) k v =
     (if k' = k then (k', v) # kvs else (k', v') # dict_replace kvs k v)"

text \<open>
  \<open>obj[key]\<close> with a string key: only a \<open>dict\<close> can answer; a missing key is a
  \<open>KeyError\<close>, every other object raises \<open>TypeError\<close>.
\<close>

fun subscript_key :: "json \<Rightarrow> string \<Rightarrow> exn + json" where
  "subscript_key (JDict kvs) k = (case map_of kvs k of None \<Rightarrow> Inl KeyError | Some v \<Rightarrow> Inr v)"
| "subscript_key _ k = Inl TypeError"

text \<open>
  \<open>obj[0]\<close>: the first element of a list or the first character of a string
  (\<open>IndexError\<close> when empty); a \<open>dict\<close> read from JSON has string keys only, so the key
  \<open>0\<close> is a \<open>KeyError\<close>; every other object raises \<open>TypeError\<close>.
\<close>

fun subscript_0 :: "json \<Rightarrow> exn + json" where
  "subscript_0 (JList []) = Inl IndexError"
| "subscript_0 (JList (x # xs)) = Inr x"
| "subscript_0 (JStr []) = Inl IndexError"
| "subscript_0 (JStr (c # cs)) = Inr (JStr [c])"
| "subscript_0 (JDict kvs) = Inl KeyError"
| "subscript_0 _ = Inl TypeError"

text \<open>Sequencing of computations that may raise.\<close>

definition bind_exn :: "exn + 'a \<Rightarrow> ('a \<Rightarrow> exn + 'b) \<Rightarrow> exn + 'b" where
  "bind_exn r f = (case r of Inl e \<Rightarrow> Inl e | Inr x \<Rightarrow> f x)"

text \<open>A list comprehension whose element expression may raise: the first exception ends it.\<close>

fun map_exn :: "('a \<Rightarrow> exn + 'b) \<Rightarrow> 'a list \<Rightarrow> exn + 'b list" where
  "map_exn f [] = Inr []"
| "map_exn f (x # xs) =
     (case f x of
        Inl e \<Rightarrow> Inl e
      | Inr y \<Rightarrow> (case map_exn f xs of Inl e \<Rightarrow> Inl e | Inr ys \<Rightarrow> Inr (y # ys)))"

section \<open>The invoice schema (app/schemas/invoice.py)\<close>

datatype date = Date int int int

record InvoiceParty =
  name :: "string option"
  address :: "string option"
  tax_id :: "string option"
  email :: "string option"
  phone :: "string option"

record InvoiceLineItem =
  description :: string
  quantity :: pyfloat
  unit_price :: pyfloat
  total :: "pyfloat option"

record InvoiceTotals =
  subtotal :: "pyfloat option"
  tax :: "pyfloat option"
  discounts :: "pyfloat option"
  total :: "pyfloat option"
  currency :: "string option"

record InvoiceData =
  vendor :: InvoiceParty
  customer :: InvoiceParty
  invoice_number :: "string option"
  purchase_order :: "string option"
  invoice_date :: "date option"
  due_date :: "date option"
  terms :: "string option"
  notes' :: "string option"
  line_items :: "InvoiceLineItem list"
  totals :: InvoiceTotals

datatype status_literal = success | error

record InvoiceOCRResponse =
  schema_version :: string
  status :: status_literal
  model :: string
  data :: InvoiceData
  warnings :: "string list"
  raw_text :: "string option"

text \<open>
  The two conversions pydantic makes that are not written out here: a string given for a
  \<open>float\<close> field is parsed as a number, and a \<open>date\<close> field is read from the value
  given. Both belong to pydantic and are parameters.
\<close>

record pydantic =
  str_as_float :: "string \<Rightarrow> pyfloat option"
  validate_date :: "json \<Rightarrow> date option"

subsection \<open>Field validators\<close>

text \<open>
  pydantic validates a Python object against the annotation of each field, in its
  default (lax) mode. The validators below are that behaviour on the objects
  \<open>json.loads\<close> can return; \<open>None\<close> is a validation error. A \<open>str\<close> field takes a
  string only. A \<open>float\<close> field takes a float, an integer, a boolean (0.0 or 1.0) or
  a string that parses as a number. An integer is converted exactly here; pydantic rounds
  it to binary64 and refuses one beyond that range, so this validator accepts a little
  more than pydantic does and never less.
\<close>

fun validate_str :: "json \<Rightarrow> string option" where
  "validate_str (JStr s) = Some s"
| "validate_str _ = None"

fun validate_float :: "pydantic \<Rightarrow> json \<Rightarrow> pyfloat option" where
  "validate_float P (JFloat f) = Some f"
| "validate_float P (JInt i) = Some (Fin (of_int i))"
| "validate_float P (JBool b) = Some (Fin (if b then 1 else 0))"
| "validate_float P (JStr s) = str_as_float P s"
| "validate_float P _ = None"

text \<open>\<open>Field(ge=0)\<close>: the validated number must satisfy \<open>x >= 0\<close>.\<close>

definition validate_float_ge0 :: "pydantic \<Rightarrow> json \<Rightarrow> pyfloat option" where
  "validate_float_ge0 P j =
     (case validate_float P j of
        None \<Rightarrow> None
      | Some f \<Rightarrow> if float_ge0 f then Some f else None)"

text \<open>\<open>Optional[T]\<close>: \<open>None\<close> is accepted as it is, anything else is validated as \<open>T\<close>.\<close>

definition validate_optional :: "(json \<Rightarrow> 'a option) \<Rightarrow> json \<Rightarrow> 'a option option" where
  "validate_optional v j = (case j of JNull \<Rightarrow> Some None | _ \<Rightarrow> map_option Some (v j))"

text \<open>\<open>List[T]\<close>: a list each of whose elements validates as \<open>T\<close>.\<close>

definition validate_list :: "(json \<Rightarrow> 'a option) \<Rightarrow> json \<Rightarrow> 'a list option" where
  "validate_list v j = (case j of JList xs \<Rightarrow> those (map v xs) | _ \<Rightarrow> None)"

text \<open>\<open>Literal["success", "error"]\<close>.\<close>

definition validate_status :: "json \<Rightarrow> status_literal option" where
  "validate_status j =
     (if j = JStr ''success'' then Some success
      else if j = JStr ''error'' then Some error
      else None)"

text \<open>A field with a default: a missing key takes the default, a present one is validated.\<close>

definition field_default :: "(string \<times> json) list \<Rightarrow> string \<Rightarrow> (json \<Rightarrow> 'a option) \<Rightarrow> 'a \<Rightarrow> 'a option" where
  "field_default kvs k v dflt = (case map_of kvs k of None \<Rightarrow> Some dflt | Some j \<Rightarrow> v j)"

text \<open>A required field: a missing key is a validation error.\<close>

definition field_required :: "(string \<times> json) list \<Rightarrow> string \<Rightarrow> (json \<Rightarrow> 'a option) \<Rightarrow> 'a option" where
  "field_required kvs k v = (case map_of kvs k of None \<Rightarrow> None | Some j \<Rightarrow> v j)"

subsection \<open>Model validators\<close>

text \<open>
  One validator per model class, field by field in the order of the class body. A model
  is validated from a \<open>dict\<close>; keys that are not fields are ignored (pydantic's default).
\<close>

definition default_InvoiceParty :: InvoiceParty where
  "default_InvoiceParty =
     \<lparr>name = None, address = None, tax_id = None, email = None, phone = None\<rparr>"

fun validate_InvoiceParty :: "json \<Rightarrow> InvoiceParty option" where
  "validate_InvoiceParty (JDict kvs) =
     do {
       n \<leftarrow> field_default kvs ''name'' (validate_optional validate_str) None;
       a \<leftarrow> field_default kvs ''address'' (validate_optional validate_str) None;
       t \<leftarrow> field_default kvs ''tax_id'' (validate_optional validate_str) None;
       e \<leftarrow> field_default kvs ''email'' (validate_optional validate_str) None;
       p \<leftarrow> field_default kvs ''phone'' (validate_optional validate_str) None;
       Some \<lparr>name = n, address = a, tax_id = t, email = e, phone = p\<rparr>
     }"
| "validate_InvoiceParty _ = None"

fun validate_InvoiceLineItem :: "pydantic \<Rightarrow> json \<Rightarrow> InvoiceLineItem option" where
  "validate_InvoiceLineItem P (JDict kvs) =
     do {
       d \<leftarrow> field_required kvs ''description'' validate_str;
       q \<leftarrow> field_required kvs ''quantity'' (validate_float_ge0 P);
       u \<leftarrow> field_required kvs ''unit_price'' (validate_float_ge0 P);
       t \<leftarrow> field_default kvs ''total'' (validate_optional (validate_float_ge0 P)) None;
       Some \<lparr>description = d, quantity = q, unit_price = u, InvoiceLineItem.total = t\<rparr>
     }"
| "validate_InvoiceLineItem P _ = None"

definition default_InvoiceTotals :: InvoiceTotals where
  "default_InvoiceTotals =
     \<lparr>subtotal = None, tax = None, discounts = None, InvoiceTotals.total = None,
      currency = Some ''USD''\<rparr>"

fun validate_InvoiceTotals :: "pydantic \<Rightarrow> json \<Rightarrow> InvoiceTotals option" where
  "validate_InvoiceTotals P (JDict kvs) =
     do {
       s \<leftarrow> field_default kvs ''subtotal'' (validate_optional (validate_float_ge0 P)) None;
       x \<leftarrow> field_default kvs ''tax'' (validate_optional (validate_float_ge0 P)) None;
       d \<leftarrow> field_default kvs ''discounts'' (validate_optional (validate_float P)) None;
       t \<leftarrow> field_default kvs ''total'' (validate_optional (validate_float_ge0 P)) None;
       c \<leftarrow> field_default kvs ''currency'' (validate_optional validate_str) (Some ''USD'');
       Some \<lparr>subtotal = s, tax = x, discounts = d, InvoiceTotals.total = t, currency = c\<rparr>
     }"
| "validate_InvoiceTotals P _ = None"

definition default_InvoiceData :: InvoiceData where
  "default_InvoiceData =
     \<lparr>vendor = default_InvoiceParty, customer = default_InvoiceParty,
      invoice_number = None, purchase_order = None, invoice_date = None, due_date = None,
      terms = None, notes' = None, line_items = [], totals = default_InvoiceTotals\<rparr>"

fun validate_InvoiceData :: "pydantic \<Rightarrow> json \<Rightarrow> InvoiceData option" where
  "validate_InvoiceData P (JDict kvs) =
     do {
       v \<leftarrow> field_default kvs ''vendor'' validate_InvoiceParty default_InvoiceParty;
       c \<leftarrow> field_default kvs ''customer'' validate_InvoiceParty default_InvoiceParty;
       n \<leftarrow> field_default kvs ''invoice_number'' (validate_optional validate_str) None;
       p \<leftarrow> field_default kvs ''purchase_order'' (validate_optional validate_str) None;
       i \<leftarrow> field_default kvs ''invoice_date'' (validate_optional (validate_date P)) None;
       d \<leftarrow> field_default kvs ''due_date'' (validate_optional (validate_date P)) None;
       t \<leftarrow> field_default kvs ''terms'' (validate_optional validate_str) None;
       nt \<leftarrow> field_default kvs ''notes'' (validate_optional validate_str) None;
       l \<leftarrow> field_default kvs ''line_items'' (validate_list (validate_InvoiceLineItem P)) [];
       s \<leftarrow> field_default kvs ''totals'' (validate_InvoiceTotals P) default_InvoiceTotals;
       Some \<lparr>vendor = v, customer = c, invoice_number = n, purchase_order = p,
             invoice_date = i, due_date = d, terms = t, notes' = nt, line_items = l,
             totals = s\<rparr>
     }"
| "validate_InvoiceData P _ = None"

fun validate_InvoiceOCRResponse :: "pydantic \<Rightarrow> json \<Rightarrow> InvoiceOCRResponse option" where
  "validate_InvoiceOCRResponse P (JDict kvs) =
     do {
       v \<leftarrow> field_default kvs ''schema_version'' validate_str ''invoice_v1'';
       s \<leftarrow> field_default kvs ''status'' validate_status success;
       m \<leftarrow> field_required kvs ''model'' validate_str;
       d \<leftarrow> field_required kvs ''data'' (validate_InvoiceData P);
       w \<leftarrow> field_default kvs ''warnings'' (validate_list validate_str) [];
       r \<leftarrow> field_default kvs ''raw_text'' (validate_optional validate_str) None;
       Some \<lparr>schema_version = v, status = s, model = m, data = d, warnings = w,
             raw_text = r\<rparr>
     }"
| "validate_InvoiceOCRResponse P _ = None"

text \<open>\<open>InvoiceOCRResponse.model_validate(obj)\<close>: the record, or \<open>ValidationError\<close>.\<close>

definition model_validate :: "pydantic \<Rightarrow> json \<Rightarrow> exn + InvoiceOCRResponse" where
  "model_validate P obj =
     (case validate_InvoiceOCRResponse P obj of
        None \<Rightarrow> Inl ValidationError
      | Some r \<Rightarrow> Inr r)"

section \<open>Settings, libraries and the outside world\<close>

text \<open>The settings object of \<open>app/core/config.py\<close>, with its defaults.\<close>

record Settings =
  deepseek_base_url :: string
  deepseek_model :: string
  deepseek_api_key :: string
  request_timeout_seconds :: int
  max_request_retries :: int
  pdf_raster_dpi :: int
  allowed_origins :: "string list"
  temp_dir :: string

definition default_Settings :: Settings where
  "default_Settings =
     \<lparr>deepseek_base_url = ''http://localhost:8000/v1'',
      deepseek_model = ''deepseek-ai/DeepSeek-OCR'',
      deepseek_api_key = ''local-placeholder'',
      request_timeout_seconds = 120,
      max_request_retries = 3,
      pdf_raster_dpi = 220,
      allowed_origins = [''*''],
      temp_dir = ''temp_files''\<rparr>"

text \<open>
  A rendered page, with the bytes that saving it as PNG writes. A page file
  \<open>page_NNN.png\<close> is named by the number of its temporary directory and its page number.
\<close>

datatype image = Image string

datatype path = PagePath nat nat

fun path_dir :: "path \<Rightarrow> nat" where
  "path_dir (PagePath t i) = t"

record response =
  status_code :: int
  body :: string

text \<open>
  The library calls the client, the rasterizer and the pipeline make. \<open>http_post n\<close> is
  what the HTTP client's \<open>post\<close> does on the \<open>n\<close>-th request it is given (counting from
  0): it raises or returns a response. \<open>json_loads\<close> is \<open>None\<close> where \<open>json.loads\<close>
  raises \<open>JSONDecodeError\<close>. \<open>tmp_cleanup t\<close> is the exception, if any, that cleaning
  up the temporary directory \<open>t\<close> raises.
\<close>

record env =
  pyd :: pydantic
  json_loads :: "string \<Rightarrow> json option"
  json_dumps :: "json \<Rightarrow> string"
  b64encode :: "string \<Rightarrow> string"
  convert_from_bytes :: "string \<Rightarrow> int \<Rightarrow> exn + image list"
  http_post :: "nat \<Rightarrow> string \<Rightarrow> json \<Rightarrow> exn + response"
  tmp_cleanup :: "nat \<Rightarrow> exn option"

text \<open>
  What the code changes outside its own variables: the temporary directories created so
  far, the files on disk, the calls of \<open>cleanup\<close> (by directory, in call order), the
  number of HTTP requests sent, and the two logs.
\<close>

record world =
  next_tmp :: nat
  files :: "path \<Rightarrow> string option"
  cleanups :: "nat list"
  posts :: nat
  warning_log :: "(int \<times> exn) list"
  debug_log :: "exn list"

section \<open>The OCR client (app/services/ocr_client.py)\<close>

text \<open>\<open>_encode_image\<close>: the file's bytes in base64; a file that is not there cannot be read.\<close>

definition encode_image :: "env \<Rightarrow> world \<Rightarrow> path \<Rightarrow> exn + string" where
  "encode_image E w p =
     (case files w p of
        None \<Rightarrow> Inl (OSError ''FileNotFoundError'')
      | Some bytes \<Rightarrow> Inr (b64encode E bytes))"

definition schema_example :: "Settings \<Rightarrow> json" where
  "schema_example S =
     JDict [
       (''schema_version'', JStr ''invoice_v1''),
       (''status'', JStr ''success''),
       (''model'', JStr (deepseek_model S)),
       (''data'', JDict [
          (''vendor'', JDict [(''name'', JStr []), (''address'', JStr []), (''tax_id'', JStr [])]),
          (''customer'', JDict [(''name'', JStr [])]),
          (''invoice_number'', JStr []),
          (''purchase_order'', JStr []),
          (''invoice_date'', JStr ''YYYY-MM-DD''),
          (''due_date'', JStr ''YYYY-MM-DD''),
          (''terms'', JStr []),
          (''notes'', JStr []),
          (''line_items'', JList [
             JDict [(''description'', JStr []), (''quantity'', JInt 0),
                    (''unit_price'', JInt 0), (''total'', JInt 0)]]),
          (''totals'', JDict [
             (''subtotal'', JInt 0), (''tax'', JInt 0), (''discounts'', JInt 0),
             (''total'', JInt 0), (''currency'', JStr ''USD'')])]),
       (''warnings'', JList [])]"

definition build_messages :: "env \<Rightarrow> Settings \<Rightarrow> string list \<Rightarrow> json" where
  "build_messages E S encoded_images =
     (let schema_hint = json_dumps E (schema_example S);
          system_prompt =
            ''You are DeepSeek-OCR fine-tuned for invoices. Always output valid JSON '' @
            ''matching the provided schema and NEVER include prose.'';
          user_content =
            [JDict [(''type'', JStr ''text''),
                    (''text'', JStr (''Extract structured invoice data. Respond with STRICT JSON only. '' @
                                  ''Schema example: '' @ schema_hint @ ''.''))]] @
            map (\<lambda>encoded.
                   JDict [(''type'', JStr ''image_url''),
                          (''image_url'', JDict [(''url'', JStr (''data:image/png;base64,'' @ encoded))])])
                encoded_images
      in JList [JDict [(''role'', JStr ''system''), (''content'', JStr system_prompt)],
                JDict [(''role'', JStr ''user''), (''content'', JList user_content)]])"

definition request_body :: "env \<Rightarrow> Settings \<Rightarrow> string list \<Rightarrow> json" where
  "request_body E S encoded_images =
     JDict [(''model'', JStr (deepseek_model S)),
            (''messages'', build_messages E S encoded_images),
            (''temperature'', JInt 0),
            (''response_format'', JDict [(''type'', JStr ''json_object'')])]"

text \<open>\<open>response.raise_for_status()\<close>: a status outside 200..299 raises an \<open>HTTPError\<close>.\<close>

definition raise_for_status :: "response \<Rightarrow> exn + unit" where
  "raise_for_status r =
     (if 200 \<le> status_code r \<and> status_code r \<le> 299 then Inr ()
      else Inl (HTTPError ''HTTPStatusError''))"

text \<open>\<open>response.json()\<close>: the body decoded; a body that is not JSON raises.\<close>

definition response_json :: "env \<Rightarrow> response \<Rightarrow> exn + json" where
  "response_json E r =
     (case json_loads E (body r) of None \<Rightarrow> Inl JSONDecodeError | Some v \<Rightarrow> Inr v)"

text \<open>
  What \<open>_post_completion\<close> returns or raises when its request is the \<open>n\<close>-th one sent:
  the three statements after the body is built.
\<close>

definition completion_at :: "env \<Rightarrow> Settings \<Rightarrow> string list \<Rightarrow> nat \<Rightarrow> exn + json" where
  "completion_at E S encoded_images n =
     bind_exn (http_post E n ''chat/completions'' (request_body E S encoded_images))
       (\<lambda>response. bind_exn (raise_for_status response)
          (\<lambda>_. response_json E response))"

definition post_completion :: "env \<Rightarrow> Settings \<Rightarrow> string list \<Rightarrow> world \<Rightarrow> (exn + json) \<times> world" where
  "post_completion E S encoded_images w =
     (completion_at E S encoded_images (posts w), w\<lparr>posts := Suc (posts w)\<rparr>)"

text \<open>
  \<open>json.loads(content)\<close>: the argument must be a string. Of the exceptions of the
  decoder only \<open>JSONDecodeError\<close> is kept; its \<open>RecursionError\<close> and its
  \<open>ValueError\<close> on an integer of thousands of digits are left out.
\<close>

fun loads_content :: "env \<Rightarrow> json \<Rightarrow> exn + json" where
  "loads_content E (JStr s) =
     (case json_loads E s of None \<Rightarrow> Inl JSONDecodeError | Some v \<Rightarrow> Inr v)"
| "loads_content E _ = Inl TypeError"

text \<open>
  The six \<open>setdefault\<close> calls of \<open>_parse_completion\<close>. \<open>setdefault\<close> is a method of
  \<open>dict\<close>: on any other object the attribute lookup raises \<open>AttributeError\<close>.
\<close>

fun fill_defaults :: "Settings \<Rightarrow> json \<Rightarrow> exn + json" where
  "fill_defaults S (JDict kvs) =
     (let d1 = setdefault kvs ''schema_version'' (JStr ''invoice_v1'');
          d2 = setdefault d1 ''status'' (JStr ''success'');
          d3 = setdefault d2 ''model'' (JStr (deepseek_model S));
          d4 = setdefault d3 ''warnings'' (JList []);
          d5 = setdefault d4 ''data'' (JDict [])
      in case map_of d5 ''data'' of
           Some (JDict inner) \<Rightarrow>
             Inr (JDict (dict_replace d5 ''data'' (JDict (setdefault inner ''totals'' (JDict [])))))
         | _ \<Rightarrow> Inl AttributeError)"
| "fill_defaults S _ = Inl AttributeError"

text \<open>The first \<open>try\<close> of \<open>_parse_completion\<close>: \<open>completion["choices"][0]["message"]["content"]\<close>.\<close>

definition completion_content :: "json \<Rightarrow> exn + json" where
  "completion_content completion =
     bind_exn (subscript_key completion ''choices'')
       (\<lambda>choices. bind_exn (subscript_0 choices)
          (\<lambda>choice. bind_exn (subscript_key choice ''message'')
             (\<lambda>message. subscript_key message ''content'')))"

definition parse_completion :: "env \<Rightarrow> Settings \<Rightarrow> json \<Rightarrow> exn + InvoiceOCRResponse" where
  "parse_completion E S completion =
     (case completion_content completion of
        Inl exc \<Rightarrow>
          if exc = KeyError \<or> exc = IndexError
          then Inl (OCRClientError ''Malformed completion payload'' (Some exc))
          else Inl exc
      | Inr content \<Rightarrow>
          (case loads_content E content of
             Inl exc \<Rightarrow>
               if exc = JSONDecodeError
               then Inl (OCRClientError ''Model did not return valid JSON'' (Some exc))
               else Inl exc
           | Inr data' \<Rightarrow> bind_exn (fill_defaults S data') (model_validate (pyd E))))"

text \<open>
  The \<open>except\<close> clause of the retry loop:
  \<open>isinstance(exc, (httpx.HTTPError, OCRClientError, ValidationError))\<close>.
\<close>

fun retryable :: "exn \<Rightarrow> bool" where
  "retryable (HTTPError m) = True"
| "retryable (OCRClientError m c) = True"
| "retryable ValidationError = True"
| "retryable _ = False"

text \<open>The body of the \<open>try\<close> in the loop, when its request is the \<open>n\<close>-th one sent.\<close>

definition attempt_at :: "env \<Rightarrow> Settings \<Rightarrow> string list \<Rightarrow> nat \<Rightarrow> exn + InvoiceOCRResponse" where
  "attempt_at E S encoded_images n =
     bind_exn (completion_at E S encoded_images n) (parse_completion E S)"

text \<open>
  The \<open>for\<close> loop over \<open>range(1, max_request_retries + 1)\<close> and the \<open>raise\<close> after it.
  The list holds the attempt numbers still to run.
\<close>

fun retry_loop ::
  "env \<Rightarrow> Settings \<Rightarrow> string list \<Rightarrow> int list \<Rightarrow> exn option \<Rightarrow> world \<Rightarrow>
   (exn + InvoiceOCRResponse) \<times> world" where
  "retry_loop E S encoded_images [] last_error w =
     (Inl (OCRClientError ''OCR failed after retries'' last_error), w)"
| "retry_loop E S encoded_images (attempt # rest) last_error w =
     (case post_completion E S encoded_images w of
        (completion, w1) \<Rightarrow>
          (case bind_exn completion (parse_completion E S) of
             Inr payload \<Rightarrow> (Inr payload, w1)
           | Inl exc \<Rightarrow>
               if retryable exc
               then retry_loop E S encoded_images rest (Some exc)
                      (w1\<lparr>warning_log := warning_log w1 @ [(attempt, exc)]\<rparr>)
               else (Inl exc, w1)))"

definition extract_invoice ::
  "env \<Rightarrow> Settings \<Rightarrow> path list \<Rightarrow> world \<Rightarrow> (exn + InvoiceOCRResponse) \<times> world" where
  "extract_invoice E S image_paths w =
     (if image_paths = [] then (Inl (ValueError ''Expected at least one image for OCR''), w)
      else
        (case map_exn (encode_image E w) image_paths of
           Inl exc \<Rightarrow> (Inl exc, w)
         | Inr encoded_images \<Rightarrow>
             retry_loop E S encoded_images [1..max_request_retries S] None w))"

section \<open>The rasterizer (utils/pdf_rasterizer.py)\<close>

record RasterizedPDF =
  image_paths :: "path list"
  tmpdir :: nat

text \<open>
  \<open>RasterizedPDF.cleanup\<close>: the directory's own \<open>cleanup\<close>, which may raise; when it
  does not, the files of the directory are gone.
\<close>

definition cleanup :: "env \<Rightarrow> RasterizedPDF \<Rightarrow> world \<Rightarrow> (exn + unit) \<times> world" where
  "cleanup E r w =
     (let w1 = w\<lparr>cleanups := cleanups w @ [tmpdir r]\<rparr>
      in case tmp_cleanup E (tmpdir r) of
           Some exc \<Rightarrow> (Inl exc, w1)
         | None \<Rightarrow>
             (Inr (), w1\<lparr>files := (\<lambda>p. if path_dir p = tmpdir r then None else files w1 p)\<rparr>))"

text \<open>The loop over \<open>enumerate(pil_images, start=1)\<close>: save the page, append its path.\<close>

fun save_pages :: "nat \<Rightarrow> nat \<Rightarrow> image list \<Rightarrow> path list \<Rightarrow> world \<Rightarrow> path list \<times> world" where
  "save_pages t idx [] paths w = (paths, w)"
| "save_pages t idx (Image png # rest) paths w =
     save_pages t (Suc idx) rest (paths @ [PagePath t idx])
       (w\<lparr>files := (files w)(PagePath t idx \<mapsto> png)\<rparr>)"

definition pdf_bytes_to_images :: "env \<Rightarrow> string \<Rightarrow> int \<Rightarrow> world \<Rightarrow> (exn + RasterizedPDF) \<times> world" where
  "pdf_bytes_to_images E pdf_bytes dpi w =
     (let t = next_tmp w;
          w1 = w\<lparr>next_tmp := Suc t\<rparr>
      in case convert_from_bytes E pdf_bytes dpi of
           Inl exc \<Rightarrow> (Inl exc, w1)
         | Inr pil_images \<Rightarrow>
             (case save_pages t 1 pil_images [] w1 of
                (paths, w2) \<Rightarrow> (Inr \<lparr>image_paths = paths, tmpdir = t\<rparr>, w2)))"

section \<open>The pipeline (app/services/ocr_pipeline.py)\<close>

text \<open>
  The \<open>finally\<close> block of \<open>run\<close>. \<open>rasterized\<close> is \<open>None\<close> until the rasterizer has
  returned; an instance of the dataclass is always true in \<open>if rasterized\<close>. An exception
  of \<open>cleanup\<close> is logged at debug level, and the outcome of the \<open>try\<close> block stands.
\<close>

definition run_finally ::
  "env \<Rightarrow> RasterizedPDF option \<Rightarrow> exn + InvoiceOCRResponse \<Rightarrow> world \<Rightarrow>
   (exn + InvoiceOCRResponse) \<times> world" where
  "run_finally E rasterized outcome w =
     (case rasterized of
        None \<Rightarrow> (outcome, w)
      | Some r \<Rightarrow>
          (case cleanup E r w of
             (Inl exc, w1) \<Rightarrow> (outcome, w1\<lparr>debug_log := debug_log w1 @ [exc]\<rparr>)
           | (Inr u, w1) \<Rightarrow> (outcome, w1)))"

definition run :: "env \<Rightarrow> Settings \<Rightarrow> string \<Rightarrow> world \<Rightarrow> (exn + InvoiceOCRResponse) \<times> world" where
  "run E S pdf_bytes w =
     (case pdf_bytes_to_images E pdf_bytes (pdf_raster_dpi S) w of
        (Inl exc, w1) \<Rightarrow> run_finally E None (Inl exc) w1
      | (Inr rasterized, w1) \<Rightarrow>
          (case extract_invoice E S (image_paths rasterized) w1 of
             (result, w2) \<Rightarrow> run_finally E (Some rasterized) result w2))"

section \<open>The semantic index (faiss_service/indexer.py)\<close>

text \<open>
  A numpy array of embeddings, as far as the index looks at it: a one-dimensional array
  of shape \<open>(d,)\<close> holding one vector, or a two-dimensional array of shape \<open>(n, d)\<close>
  holding \<open>n\<close> row vectors. The vectors themselves are of any type \<open>'v\<close>.
\<close>

datatype 'v ndarray = Array1 nat 'v | Array2 nat "'v list"

fun ndim :: "'v ndarray \<Rightarrow> nat" where
  "ndim (Array1 n v) = 1"
| "ndim (Array2 n rows) = 2"

text \<open>\<open>np.expand_dims(a, axis=0)\<close> on a one-dimensional array: one row.\<close>

fun expand_dims :: "'v ndarray \<Rightarrow> 'v ndarray" where
  "expand_dims (Array1 n v) = Array2 n [v]"
| "expand_dims (Array2 n rows) = Array2 n rows"

text \<open>\<open>a.shape[1]\<close>: a one-dimensional shape has no second entry.\<close>

fun shape1 :: "'v ndarray \<Rightarrow> exn + nat" where
  "shape1 (Array1 n v) = Inl IndexError"
| "shape1 (Array2 n rows) = Inr n"

text \<open>\<open>faiss.IndexFlatIP\<close>: its dimension and the vectors added so far.\<close>

record 'v IndexFlatIP =
  faiss_d :: nat
  vectors :: "'v list"


text \<open>
  \<open>index.add(x)\<close>: FAISS unpacks \<open>n, d = x.shape\<close> and asserts that \<open>d\<close> is the
  dimension of the index before it stores the rows.
\<close>

fun faiss_add :: "'v IndexFlatIP \<Rightarrow> 'v ndarray \<Rightarrow> exn + 'v IndexFlatIP" where
  "faiss_add ix (Array1 n v) = Inl (ValueError ''not enough values to unpack'')"
| "faiss_add ix (Array2 n rows) =
     (if n = faiss_d ix then Inr (ix\<lparr>vectors := vectors ix @ rows\<rparr>) else Inl AssertionError)"

record 'p IndexedInvoice =
  payload :: 'p
  raw_text :: string

record 'p QueryResult =
  score :: pyfloat
  invoice :: 'p

text \<open>
  The library calls of the index: \<open>invoice.model_dump()\<close> (a Python dictionary, of any
  type \<open>'p\<close> here), \<open>json.dumps\<close> on it (which raises on an object it cannot serialise),
  the embedder's \<open>encode\<close>, and the search of FAISS, which returns the two-dimensional
  arrays of distances and of positions.
\<close>

record ('p, 'v) index_env =
  model_dump :: "InvoiceOCRResponse \<Rightarrow> 'p"
  dumps :: "'p \<Rightarrow> exn + string"
  encode :: "string list \<Rightarrow> exn + 'v ndarray"
  search :: "'v IndexFlatIP \<Rightarrow> 'v ndarray \<Rightarrow> int \<Rightarrow> exn + (pyfloat list list \<times> int list list)"

record ('p, 'v) InvoiceFaissIndex =
  model_name :: string
  index :: "'v IndexFlatIP option"
  dimension :: "nat option"
  store :: "'p IndexedInvoice list"

text \<open>The constructor: no index, no dimension, an empty store.\<close>

definition init_index :: "string \<Rightarrow> ('p, 'v) InvoiceFaissIndex" where
  "init_index mname = \<lparr>model_name = mname, index = None, dimension = None, store = []\<rparr>"

definition ensure_index :: "nat \<Rightarrow> ('p, 'v) InvoiceFaissIndex \<Rightarrow> ('p, 'v) InvoiceFaissIndex" where
  "ensure_index dim' st =
     (case index st of
        None \<Rightarrow> st\<lparr>index := Some \<lparr>faiss_d = dim', vectors = []\<rparr>, dimension := Some dim'\<rparr>
      | Some ix \<Rightarrow> st)"

text \<open>The last loop of \<open>add_invoices\<close>, over \<open>zip(invoices, texts)\<close>.\<close>

fun append_store ::
  "('p, 'v) index_env \<Rightarrow> (InvoiceOCRResponse \<times> string) list \<Rightarrow> 'p IndexedInvoice list \<Rightarrow>
   'p IndexedInvoice list" where
  "append_store E [] st = st"
| "append_store E ((invoice', blob) # rest) st =
     append_store E rest (st @ [\<lparr>payload = model_dump E invoice', raw_text = blob\<rparr>])"

definition add_invoices ::
  "('p, 'v) index_env \<Rightarrow> InvoiceOCRResponse list \<Rightarrow> ('p, 'v) InvoiceFaissIndex \<Rightarrow>
   (exn + unit) \<times> ('p, 'v) InvoiceFaissIndex" where
  "add_invoices E invoices st =
     (if invoices = [] then (Inr (), st)
      else
        (case map_exn (\<lambda>invoice'. dumps E (model_dump E invoice')) invoices of
           Inl exc \<Rightarrow> (Inl exc, st)
         | Inr texts \<Rightarrow>
             (case encode E texts of
                Inl exc \<Rightarrow> (Inl exc, st)
              | Inr encoded \<Rightarrow>
                  (let embeddings = (if ndim encoded = 1 then expand_dims encoded else encoded)
                   in case shape1 embeddings of
                        Inl exc \<Rightarrow> (Inl exc, st)
                      | Inr dim' \<Rightarrow>
                          (let st1 = ensure_index dim' st
                           in case index st1 of
                                None \<Rightarrow> (Inl AttributeError, st1)
                              | Some ix \<Rightarrow>
                                  (case faiss_add ix embeddings of
                                     Inl exc \<Rightarrow> (Inl exc, st1)
                                   | Inr ix' \<Rightarrow>
                                       (Inr (),
                                        st1\<lparr>index := Some ix',
                                            store := append_store E (zip invoices texts) (store st1)\<rparr>)))))))"

text \<open>\<open>a[0]\<close> on a two-dimensional array: its first row.\<close>

fun first_row :: "'a list list \<Rightarrow> exn + 'a list" where
  "first_row [] = Inl IndexError"
| "first_row (r # rs) = Inr r"

text \<open>The loop of \<open>query\<close> over \<open>zip(indices[0], distances[0])\<close>.\<close>

fun collect_results ::
  "(int \<times> pyfloat) list \<Rightarrow> 'p IndexedInvoice list \<Rightarrow> 'p QueryResult list \<Rightarrow> 'p QueryResult list" where
  "collect_results [] entries results = results"
| "collect_results ((idx, sc) # rest) entries results =
     (if idx < 0 \<or> idx \<ge> int (length entries) then collect_results rest entries results
      else collect_results rest entries
             (results @ [\<lparr>score = sc, invoice = payload (entries ! nat idx)\<rparr>]))"

definition query ::
  "('p, 'v) index_env \<Rightarrow> string \<Rightarrow> int \<Rightarrow> ('p, 'v) InvoiceFaissIndex \<Rightarrow> exn + 'p QueryResult list" where
  "query E query_text top_k st =
     (case index st of
        None \<Rightarrow> Inr []
      | Some ix \<Rightarrow>
          bind_exn (encode E [query_text])
            (\<lambda>embedding. bind_exn (search E ix embedding top_k)
               (\<lambda>(distances, indices). bind_exn (first_row indices)
                  (\<lambda>indices0. bind_exn (first_row distances)
                     (\<lambda>distances0. Inr (collect_results (zip indices0 distances0) (store st) []))))))"

definition drop_index :: "('p, 'v) InvoiceFaissIndex \<Rightarrow> ('p, 'v) InvoiceFaissIndex" where
  "drop_index st = st\<lparr>index := None, dimension := None, store := []\<rparr>"

text \<open>The calls that change the index, and a sequence of them run from a state.\<close>

datatype index_call = Add "InvoiceOCRResponse list" | Drop

fun index_step ::
  "('p, 'v) index_env \<Rightarrow> index_call \<Rightarrow> ('p, 'v) InvoiceFaissIndex \<Rightarrow> ('p, 'v) InvoiceFaissIndex" where
  "index_step E (Add invoices) st = snd (add_invoices E invoices st)"
| "index_step E Drop st = drop_index st"

fun index_calls ::
  "('p, 'v) index_env \<Rightarrow> index_call list \<Rightarrow> ('p, 'v) InvoiceFaissIndex \<Rightarrow> ('p, 'v) InvoiceFaissIndex" where
  "index_calls E [] st = st"
| "index_calls E (c # cs) st = index_calls E cs (index_step E c st)"


section \<open>Vocabulary of the properties\<close>

text \<open>
  An attempt that fails with an exception the retry loop catches.
\<close>

definition fails_retryably :: "env \<Rightarrow> Settings \<Rightarrow> string list \<Rightarrow> nat \<Rightarrow> bool" where
  "fails_retryably E S encoded_images n =
     (case attempt_at E S encoded_images n of Inl exc \<Rightarrow> retryable exc | Inr r \<Rightarrow> False)"

text \<open>
  A JSON value that carries a negative number: an integer or a float below zero, or a
  string that pydantic parses to one.
\<close>

fun negative_value :: "pydantic \<Rightarrow> json \<Rightarrow> bool" where
  "negative_value P (JInt i) = (i < 0)"
| "negative_value P (JFloat f) = float_negative f"
| "negative_value P (JStr s) =
     (case str_as_float P s of None \<Rightarrow> False | Some f \<Rightarrow> float_negative f)"
| "negative_value P _ = False"

text \<open>
  Every field of a record that the schema marks \<open>ge=0\<close> is at least zero.
\<close>

definition nonneg_opt :: "pyfloat option \<Rightarrow> bool" where
  "nonneg_opt x = (case x of None \<Rightarrow> True | Some f \<Rightarrow> float_ge0 f)"

definition nonnegative_fields :: "InvoiceOCRResponse \<Rightarrow> bool" where
  "nonnegative_fields r =
     (list_all (\<lambda>li. float_ge0 (quantity li) \<and> float_ge0 (unit_price li) \<and>
                     nonneg_opt (InvoiceLineItem.total li))
        (line_items (data r)) \<and>
      nonneg_opt (subtotal (totals (data r))) \<and>
      nonneg_opt (tax (totals (data r))) \<and>
      nonneg_opt (InvoiceTotals.total (totals (data r))))"

text \<open>
  A response with boilerplate left out: the given top-level keys removed and, when asked,
  the key \<open>totals\<close> removed from the \<open>data\<close> dictionary. The record that is then
  expected has the defaults of \<open>_parse_completion\<close> in those places.
\<close>

definition dict_remove :: "string list \<Rightarrow> (string \<times> json) list \<Rightarrow> (string \<times> json) list" where
  "dict_remove ks kvs = filter (\<lambda>kv. fst kv \<notin> set ks) kvs"

definition strip_boilerplate :: "string list \<Rightarrow> bool \<Rightarrow> (string \<times> json) list \<Rightarrow> (string \<times> json) list" where
  "strip_boilerplate ks no_totals kvs =
     (let top = dict_remove ks kvs
      in if no_totals
         then (case map_of top ''data'' of
                 Some (JDict dd) \<Rightarrow> dict_replace top ''data'' (JDict (dict_remove [''totals''] dd))
               | _ \<Rightarrow> top)
         else top)"

definition with_defaults :: "Settings \<Rightarrow> string list \<Rightarrow> bool \<Rightarrow> InvoiceOCRResponse \<Rightarrow> InvoiceOCRResponse" where
  "with_defaults S ks no_totals r =
     \<lparr>schema_version = (if ''schema_version'' \<in> set ks then ''invoice_v1'' else schema_version r),
      status = (if ''status'' \<in> set ks then success else status r),
      model = (if ''model'' \<in> set ks then deepseek_model S else model r),
      data = (if no_totals then (data r)\<lparr>totals := default_InvoiceTotals\<rparr> else data r),
      warnings = (if ''warnings'' \<in> set ks then [] else warnings r),
      raw_text = InvoiceOCRResponse.raw_text r\<rparr>"



section \<open>Concrete collaborators and inputs\<close>

text \<open>
  Small instances of the libraries and of the outside world, on which the theorems below
  are run: a pydantic that parses no string and no date, a JSON decoder that knows a few
  texts, an HTTP endpoint, a PDF renderer and a disk.
\<close>

definition pydantic0 :: pydantic where
  "pydantic0 = \<lparr>str_as_float = (\<lambda>s. None), validate_date = (\<lambda>j. None)\<rparr>"

definition completion_of :: "json \<Rightarrow> json" where
  "completion_of c = JDict [(''choices'', JList [JDict [(''message'', JDict [(''content'', c)])]])]"

definition loads0 :: "string \<Rightarrow> json option" where
  "loads0 s =
     (if s = ''resp_ok'' then Some (completion_of (JStr ''inv_ok''))
      else if s = ''inv_ok'' then
        Some (JDict [(''data'', JDict [(''invoice_number'', JStr ''INV-1'')])])
      else None)"

definition env0 :: env where
  "env0 =
     \<lparr>pyd = pydantic0, json_loads = loads0, json_dumps = (\<lambda>j. ''{}''), b64encode = (\<lambda>b. b),
      convert_from_bytes = (\<lambda>b dpi.
        if b = ''%PDF-1page'' then Inr [Image ''png1'']
        else if b = ''%PDF-0pages'' then Inr []
        else Inl (Pdf2ImageError ''PDFSyntaxError'')),
      http_post = (\<lambda>n url req. Inr \<lparr>status_code = 200, body = ''resp_ok''\<rparr>),
      tmp_cleanup = (\<lambda>t. None)\<rparr>"

definition env_flaky :: env where
  "env_flaky = env0\<lparr>http_post := (\<lambda>n url req.
      if n < 2 then Inl (HTTPError ''ReadTimeout'') else Inr \<lparr>status_code = 200, body = ''resp_ok''\<rparr>)\<rparr>"

definition env_down :: env where
  "env_down = env0\<lparr>http_post := (\<lambda>n url req.
      if n < 2 then Inl (HTTPError ''ReadTimeout'') else Inr \<lparr>status_code = 503, body = ''''\<rparr>)\<rparr>"

definition env_broken_cleanup :: env where
  "env_broken_cleanup = env0\<lparr>http_post := (\<lambda>n url req. Inl (HTTPError ''ConnectError'')),
      tmp_cleanup := (\<lambda>t. Some (OSError ''PermissionError''))\<rparr>"

definition world0 :: world where
  "world0 = \<lparr>next_tmp = 0, files = (\<lambda>p. None), cleanups = [], posts = 0, warning_log = [],
             debug_log = []\<rparr>"

definition world1 :: world where
  "world1 = world0\<lparr>next_tmp := 1, files := [PagePath 0 1 \<mapsto> ''png1'']\<rparr>"

definition invoice_ok :: InvoiceOCRResponse where
  "invoice_ok =
     \<lparr>schema_version = ''invoice_v1'', status = success, model = ''deepseek-ai/DeepSeek-OCR'',
      data = default_InvoiceData\<lparr>invoice_number := Some ''INV-1''\<rparr>, warnings = [],
      raw_text = None\<rparr>"

text \<open>
  A response whose \<open>schema_version\<close> is not the tag of this pipeline.
\<close>

definition env_v2 :: env where
  "env_v2 = env0\<lparr>
      json_loads := (\<lambda>s.
        if s = ''resp'' then Some (completion_of (JStr ''inv''))
        else if s = ''inv'' then Some (JDict [(''schema_version'', JStr ''invoice_v2'')])
        else None),
      http_post := (\<lambda>n url req. Inr \<lparr>status_code = 200, body = ''resp''\<rparr>)\<rparr>"

definition invoice_v2 :: InvoiceOCRResponse where
  "invoice_v2 =
     \<lparr>schema_version = ''invoice_v2'', status = success, model = ''deepseek-ai/DeepSeek-OCR'',
      data = default_InvoiceData, warnings = [], raw_text = None\<rparr>"

text \<open>
  A response whose content is valid JSON but an array, not an object.
\<close>

definition env_list :: env where
  "env_list = env0\<lparr>
      json_loads := (\<lambda>s.
        if s = ''resp'' then Some (completion_of (JStr ''[]''))
        else if s = ''[]'' then Some (JList [])
        else None),
      http_post := (\<lambda>n url req. Inr \<lparr>status_code = 200, body = ''resp''\<rparr>)\<rparr>"

text \<open>
  Payloads with one line item, a full payload with every boilerplate key, and their records.
\<close>

definition line_item_json :: "json \<Rightarrow> json" where
  "line_item_json price =
     JDict [(''description'', JStr ''Widget''), (''quantity'', JInt 2), (''unit_price'', price)]"

definition payload_of :: "json \<Rightarrow> (string \<times> json) list" where
  "payload_of item = [(''model'', JStr ''ocr''), (''data'', JDict [(''line_items'', JList [item])])]"

definition invoice_widget :: InvoiceOCRResponse where
  "invoice_widget =
     \<lparr>schema_version = ''invoice_v1'', status = success, model = ''ocr'',
      data = default_InvoiceData\<lparr>line_items :=
        [\<lparr>description = ''Widget'', quantity = Fin 2, unit_price = Fin 5,
          InvoiceLineItem.total = None\<rparr>]\<rparr>,
      warnings = [], raw_text = None\<rparr>"

definition full_payload :: "(string \<times> json) list" where
  "full_payload =
     [(''schema_version'', JStr ''invoice_v1''), (''status'', JStr ''error''),
      (''model'', JStr ''ocr''),
      (''data'', JDict [(''invoice_number'', JStr ''INV-1''),
                        (''totals'', JDict [(''total'', JInt 10)])]),
      (''warnings'', JList [JStr ''blurred''])]"

definition invoice_full :: InvoiceOCRResponse where
  "invoice_full =
     \<lparr>schema_version = ''invoice_v1'', status = error, model = ''ocr'',
      data = default_InvoiceData\<lparr>invoice_number := Some ''INV-1'',
        totals := default_InvoiceTotals\<lparr>InvoiceTotals.total := Some (Fin 10)\<rparr>\<rparr>,
      warnings = [''blurred''], raw_text = None\<rparr>"

definition boilerplate_keys :: "string list" where
  "boilerplate_keys = [''schema_version'', ''status'', ''model'', ''warnings'']"

definition env_no_description :: env where
  "env_no_description = env0\<lparr>json_loads := (\<lambda>s.
      if s = ''inv'' then
        Some (JDict (payload_of (JDict [(''quantity'', JInt 1), (''unit_price'', JInt 5)])))
      else None)\<rparr>"

text \<open>
  An index whose payload is the schema version of the invoice, whose embedder gives the
  length of each text, and whose search returns the position 1, the sentinel and a
  position beyond any store.
\<close>

definition index_env0 :: "(string, nat) index_env" where
  "index_env0 =
     \<lparr>model_dump = schema_version,
      dumps = (\<lambda>p. Inr p),
      encode = (\<lambda>ts. Inr (Array2 2 (map length ts))),
      search = (\<lambda>ix q k. Inr ([take (nat k) [Fin 3, Fin 2, Fin 1]], [take (nat k) [1, - 1, 7]]))\<rparr>"


definition index_two :: "(string, nat) InvoiceFaissIndex" where
  "index_two = snd (add_invoices index_env0 [invoice_ok, invoice_v2] (init_index ''all-MiniLM-L6-v2''))"

section \<open>The retry loop\<close>

text \<open>
  One turn of the loop, in terms of the attempt made at the current request number.
\<close>

lemma retry_loop_Cons:
  "retry_loop E S enc (a # as) le w =
     (case attempt_at E S enc (posts w) of
        Inr p \<Rightarrow> (Inr p, w\<lparr>posts := Suc (posts w)\<rparr>)
      | Inl exc \<Rightarrow>
          if retryable exc
          then retry_loop E S enc as (Some exc)
                 (w\<lparr>posts := Suc (posts w), warning_log := warning_log w @ [(a, exc)]\<rparr>)
          else (Inl exc, w\<lparr>posts := Suc (posts w)\<rparr>))"
  by (simp add: post_completion_def attempt_at_def split: sum.splits)

declare retry_loop.simps(2) [simp del]

lemma retry_loop_posts_le:
  "posts (snd (retry_loop E S enc as le w)) \<le> posts w + length as"
proof (induction as arbitrary: le w)
  case Nil
  show ?case by simp
next
  case (Cons a as)
  show ?case
  proof (cases "attempt_at E S enc (posts w)")
    case (Inr p)
    then show ?thesis by (simp add: retry_loop_Cons)
  next
    case (Inl exc)
    show ?thesis
    proof (cases "retryable exc")
      case True
      have "posts (snd (retry_loop E S enc as (Some exc)
              (w\<lparr>posts := Suc (posts w), warning_log := warning_log w @ [(a, exc)]\<rparr>)))
            \<le> Suc (posts w) + length as"
        using Cons.IH [of "Some exc" "w\<lparr>posts := Suc (posts w), warning_log := warning_log w @ [(a, exc)]\<rparr>"]
        by simp
      with Inl True show ?thesis by (simp add: retry_loop_Cons)
    next
      case False
      with Inl show ?thesis by (simp add: retry_loop_Cons)
    qed
  qed
qed

lemma retry_loop_success:
  "\<lbrakk>k < length as; \<forall>i<k. fails_retryably E S enc (posts w + i);
    attempt_at E S enc (posts w + k) = Inr r\<rbrakk>
   \<Longrightarrow> fst (retry_loop E S enc as le w) = Inr r \<and>
       posts (snd (retry_loop E S enc as le w)) = posts w + Suc k"
proof (induction as arbitrary: k le w)
  case Nil
  then show ?case by simp
next
  case (Cons a as)
  show ?case
  proof (cases k)
    case 0
    with Cons.prems show ?thesis by (simp add: retry_loop_Cons)
  next
    case (Suc j)
    have "0 < k" using Suc by simp
    with Cons.prems(2) have "fails_retryably E S enc (posts w + 0)" by blast
    then have f0: "fails_retryably E S enc (posts w)" by simp
    then obtain exc where ex: "attempt_at E S enc (posts w) = Inl exc" "retryable exc"
      by (auto simp: fails_retryably_def split: sum.splits)
    let ?w = "w\<lparr>posts := Suc (posts w), warning_log := warning_log w @ [(a, exc)]\<rparr>"
    have j: "j < length as" using Cons.prems(1) Suc by simp
    have fs: "\<forall>i<j. fails_retryably E S enc (posts ?w + i)"
    proof (intro allI impI)
      fix i assume "i < j"
      then have "Suc i < k" using Suc by simp
      with Cons.prems(2) have "fails_retryably E S enc (posts w + Suc i)" by blast
      then show "fails_retryably E S enc (posts ?w + i)" by simp
    qed
    have at: "attempt_at E S enc (posts ?w + j) = Inr r"
      using Cons.prems(3) Suc by simp
    from Cons.IH [OF j fs at, of "Some exc"] ex Suc show ?thesis
      by (simp add: retry_loop_Cons)
  qed
qed

lemma retry_loop_exhausted:
  "\<forall>i<length as. fails_retryably E S enc (posts w + i) \<Longrightarrow>
   fst (retry_loop E S enc as le w) =
     Inl (OCRClientError ''OCR failed after retries''
            (if as = [] then le
             else (case attempt_at E S enc (posts w + (length as - 1)) of
                     Inl exc \<Rightarrow> Some exc | Inr r \<Rightarrow> None))) \<and>
   posts (snd (retry_loop E S enc as le w)) = posts w + length as"
proof (induction as arbitrary: le w)
  case Nil
  show ?case by simp
next
  case (Cons a as)
  have "0 < length (a # as)" by simp
  with Cons.prems have "fails_retryably E S enc (posts w + 0)" by blast
  then have f0: "fails_retryably E S enc (posts w)" by simp
  then obtain exc where ex: "attempt_at E S enc (posts w) = Inl exc" "retryable exc"
    by (auto simp: fails_retryably_def split: sum.splits)
  let ?w = "w\<lparr>posts := Suc (posts w), warning_log := warning_log w @ [(a, exc)]\<rparr>"
  have fs: "\<forall>i<length as. fails_retryably E S enc (posts ?w + i)"
  proof (intro allI impI)
    fix i assume "i < length as"
    then have "Suc i < length (a # as)" by simp
    with Cons.prems have "fails_retryably E S enc (posts w + Suc i)" by blast
    then show "fails_retryably E S enc (posts ?w + i)" by simp
  qed
  show ?case
  proof (cases "as = []")
    case True
    with ex show ?thesis by (simp add: retry_loop_Cons)
  next
    case False
    then have idx: "posts ?w + (length as - 1) = posts w + (length (a # as) - 1)"
      by (cases as) simp_all
    have ih: "fst (retry_loop E S enc as (Some exc) ?w) =
        Inl (OCRClientError ''OCR failed after retries''
               (case attempt_at E S enc (posts w + (length (a # as) - 1)) of
                  Inl exc \<Rightarrow> Some exc | Inr r \<Rightarrow> None))"
      "posts (snd (retry_loop E S enc as (Some exc) ?w)) = posts w + length (a # as)"
      using Cons.IH [OF fs, of "Some exc"] False unfolding idx by simp_all
    have "retry_loop E S enc (a # as) le w = retry_loop E S enc as (Some exc) ?w"
      using ex by (simp add: retry_loop_Cons)
    with ih show ?thesis by simp
  qed
qed

text \<open>
  Claim C1. For a non-empty list of page images that can all be read,
  \<open>extract_invoice\<close> sends at most \<open>max_request_retries\<close> requests, one per
  attempt, each attempt being the request followed by \<open>_parse_completion\<close> (decoding,
  default filling and schema validation). If the first \<open>N - 1\<close> attempts fail with an
  exception the loop catches and the \<open>N\<close>-th yields a record (\<open>N\<close> at most the
  maximum), that record is returned after exactly \<open>N\<close> requests. If the maximum is at
  least one and every attempt fails with an exception the loop catches, exactly
  \<open>max_request_retries\<close> requests are sent and \<open>OCRClientError\<close> is raised with
  the last failure as its cause.
\<close>

theorem extract_invoice_retry_count:
  assumes "ps \<noteq> []"
    and "map_exn (encode_image E w) ps = Inr enc"
  shows "posts (snd (extract_invoice E S ps w)) \<le> posts w + nat (max_request_retries S) \<and>
    (\<forall>N r. 1 \<le> N \<and> N \<le> nat (max_request_retries S) \<and>
        (\<forall>i<N - 1. fails_retryably E S enc (posts w + i)) \<and>
        attempt_at E S enc (posts w + (N - 1)) = Inr r
      \<longrightarrow> fst (extract_invoice E S ps w) = Inr r \<and>
          posts (snd (extract_invoice E S ps w)) = posts w + N) \<and>
    (\<forall>exc. 1 \<le> max_request_retries S \<and>
        (\<forall>i<nat (max_request_retries S). fails_retryably E S enc (posts w + i)) \<and>
        attempt_at E S enc (posts w + (nat (max_request_retries S) - 1)) = Inl exc
      \<longrightarrow> fst (extract_invoice E S ps w) =
            Inl (OCRClientError ''OCR failed after retries'' (Some exc)) \<and>
          posts (snd (extract_invoice E S ps w)) = posts w + nat (max_request_retries S))"
proof -
  let ?as = "[1..max_request_retries S]"
  have len: "length ?as = nat (max_request_retries S)" by simp
  have ex: "extract_invoice E S ps w = retry_loop E S enc ?as None w"
    using assms(1,2) by (simp add: extract_invoice_def)
  have a: "posts (snd (extract_invoice E S ps w)) \<le> posts w + nat (max_request_retries S)"
    using retry_loop_posts_le [of E S enc ?as None w] unfolding ex len .
  have b: "\<forall>N r. 1 \<le> N \<and> N \<le> nat (max_request_retries S) \<and>
        (\<forall>i<N - 1. fails_retryably E S enc (posts w + i)) \<and>
        attempt_at E S enc (posts w + (N - 1)) = Inr r
      \<longrightarrow> fst (extract_invoice E S ps w) = Inr r \<and>
          posts (snd (extract_invoice E S ps w)) = posts w + N"
  proof (intro allI impI)
    fix N r
    assume h: "1 \<le> N \<and> N \<le> nat (max_request_retries S) \<and>
        (\<forall>i<N - 1. fails_retryably E S enc (posts w + i)) \<and>
        attempt_at E S enc (posts w + (N - 1)) = Inr r"
    then have k: "N - 1 < length ?as" unfolding len by linarith
    have f: "\<forall>i<N - 1. fails_retryably E S enc (posts w + i)" using h by blast
    have s: "attempt_at E S enc (posts w + (N - 1)) = Inr r" using h by blast
    have n: "Suc (N - 1) = N" using h by linarith
    from retry_loop_success [OF k f s, of None]
    show "fst (extract_invoice E S ps w) = Inr r \<and>
          posts (snd (extract_invoice E S ps w)) = posts w + N"
      unfolding ex n .
  qed
  have c: "\<forall>exc. 1 \<le> max_request_retries S \<and>
        (\<forall>i<nat (max_request_retries S). fails_retryably E S enc (posts w + i)) \<and>
        attempt_at E S enc (posts w + (nat (max_request_retries S) - 1)) = Inl exc
      \<longrightarrow> fst (extract_invoice E S ps w) =
            Inl (OCRClientError ''OCR failed after retries'' (Some exc)) \<and>
          posts (snd (extract_invoice E S ps w)) = posts w + nat (max_request_retries S)"
  proof (intro allI impI)
    fix exc
    assume h: "1 \<le> max_request_retries S \<and>
        (\<forall>i<nat (max_request_retries S). fails_retryably E S enc (posts w + i)) \<and>
        attempt_at E S enc (posts w + (nat (max_request_retries S) - 1)) = Inl exc"
    then have pos: "0 < nat (max_request_retries S)" by simp
    have ne: "?as \<noteq> []" using len pos by (metis length_greater_0_conv)
    from h have f: "\<forall>i<length ?as. fails_retryably E S enc (posts w + i)"
      unfolding len by blast
    have l: "attempt_at E S enc (posts w + (length ?as - 1)) = Inl exc"
      using h unfolding len by blast
    from retry_loop_exhausted [OF f, of None] ne l
    have "fst (retry_loop E S enc ?as None w) =
            Inl (OCRClientError ''OCR failed after retries'' (Some exc)) \<and>
          posts (snd (retry_loop E S enc ?as None w)) = posts w + length ?as"
      by simp
    then show "fst (extract_invoice E S ps w) =
            Inl (OCRClientError ''OCR failed after retries'' (Some exc)) \<and>
          posts (snd (extract_invoice E S ps w)) = posts w + nat (max_request_retries S)"
      unfolding ex len .
  qed
  show ?thesis by (rule conjI [OF a conjI [OF b c]])
qed

theorem extract_invoice_retry_count_witness:
  "fst (extract_invoice env_flaky default_Settings [PagePath 0 1] world1) = Inr invoice_ok \<and>
   posts (snd (extract_invoice env_flaky default_Settings [PagePath 0 1] world1)) = 3 \<and>
   fst (extract_invoice env_down default_Settings [PagePath 0 1] world1) =
     Inl (OCRClientError ''OCR failed after retries'' (Some (HTTPError ''HTTPStatusError''))) \<and>
   posts (snd (extract_invoice env_down default_Settings [PagePath 0 1] world1)) = 3"
proof -
  have p: "[PagePath 0 1] \<noteq> []" by simp
  have m: "1 \<le> max_request_retries default_Settings" by (simp add: default_Settings_def)
  have n: "nat (max_request_retries default_Settings) = 3" by (simp add: default_Settings_def)
  have w: "posts world1 = 0" by (simp add: world1_def world0_def)
  have e1: "map_exn (encode_image env_flaky world1) [PagePath 0 1] = Inr [''png1'']"
    by (simp add: encode_image_def env_flaky_def env0_def world1_def world0_def)
  have e2: "map_exn (encode_image env_down world1) [PagePath 0 1] = Inr [''png1'']"
    by (simp add: encode_image_def env_down_def env0_def world1_def world0_def)
  have f0: "fails_retryably env_flaky default_Settings [''png1''] 0" by code_simp
  have f1: "fails_retryably env_flaky default_Settings [''png1''] 1" by code_simp
  have s2: "attempt_at env_flaky default_Settings [''png1''] 2 = Inr invoice_ok" by code_simp
  have d0: "fails_retryably env_down default_Settings [''png1''] 0" by code_simp
  have d1: "fails_retryably env_down default_Settings [''png1''] 1" by code_simp
  have d2: "fails_retryably env_down default_Settings [''png1''] 2" by code_simp
  have l2: "attempt_at env_down default_Settings [''png1''] 2 = Inl (HTTPError ''HTTPStatusError'')"
    by code_simp
  have fl: "\<forall>i<3 - 1. fails_retryably env_flaky default_Settings [''png1''] (posts world1 + i)"
  proof (intro allI impI)
    fix i :: nat
    assume "i < 3 - 1"
    then have "i = 0 \<or> i = 1" by linarith
    then show "fails_retryably env_flaky default_Settings [''png1''] (posts world1 + i)"
      using f0 f1 w by auto
  qed
  have dn: "\<forall>i<nat (max_request_retries default_Settings).
              fails_retryably env_down default_Settings [''png1''] (posts world1 + i)"
  proof (intro allI impI)
    fix i :: nat
    assume "i < nat (max_request_retries default_Settings)"
    then have "i = 0 \<or> i = 1 \<or> i = 2" unfolding n by linarith
    then show "fails_retryably env_down default_Settings [''png1''] (posts world1 + i)"
      using d0 d1 d2 w by auto
  qed
  have i2: "posts world1 + (3 - 1) = 2" using w by simp
  have sa: "attempt_at env_flaky default_Settings [''png1''] (posts world1 + (3 - 1)) = Inr invoice_ok"
    unfolding i2 by (rule s2)
  have la: "attempt_at env_down default_Settings [''png1'']
              (posts world1 + (nat (max_request_retries default_Settings) - 1)) =
            Inl (HTTPError ''HTTPStatusError'')"
    unfolding n i2 by (rule l2)
  have B: "1 \<le> (3::nat) \<and> 3 \<le> nat (max_request_retries default_Settings) \<and>
        (\<forall>i<3 - 1. fails_retryably env_flaky default_Settings [''png1''] (posts world1 + i)) \<and>
        attempt_at env_flaky default_Settings [''png1''] (posts world1 + (3 - 1)) = Inr invoice_ok
      \<longrightarrow> fst (extract_invoice env_flaky default_Settings [PagePath 0 1] world1) = Inr invoice_ok \<and>
          posts (snd (extract_invoice env_flaky default_Settings [PagePath 0 1] world1)) =
            posts world1 + 3"
    using extract_invoice_retry_count [OF p e1] by blast
  have pre: "1 \<le> (3::nat) \<and> 3 \<le> nat (max_request_retries default_Settings) \<and>
        (\<forall>i<3 - 1. fails_retryably env_flaky default_Settings [''png1''] (posts world1 + i)) \<and>
        attempt_at env_flaky default_Settings [''png1''] (posts world1 + (3 - 1)) = Inr invoice_ok"
  proof (intro conjI)
    show "1 \<le> (3::nat)" by simp
    show "3 \<le> nat (max_request_retries default_Settings)" unfolding n by simp
    show "\<forall>i<3 - 1. fails_retryably env_flaky default_Settings [''png1''] (posts world1 + i)"
      by (rule fl)
    show "attempt_at env_flaky default_Settings [''png1''] (posts world1 + (3 - 1)) = Inr invoice_ok"
      by (rule sa)
  qed
  have b: "fst (extract_invoice env_flaky default_Settings [PagePath 0 1] world1) = Inr invoice_ok \<and>
           posts (snd (extract_invoice env_flaky default_Settings [PagePath 0 1] world1)) =
             posts world1 + 3"
    by (rule mp [OF B pre])
  have c: "fst (extract_invoice env_down default_Settings [PagePath 0 1] world1) =
             Inl (OCRClientError ''OCR failed after retries'' (Some (HTTPError ''HTTPStatusError''))) \<and>
           posts (snd (extract_invoice env_down default_Settings [PagePath 0 1] world1)) =
             posts world1 + nat (max_request_retries default_Settings)"
    using extract_invoice_retry_count [OF p e2] m dn la by blast
  from b c w n show ?thesis by simp
qed

text \<open>
  With a maximum below one the range of the loop is empty: no request is sent, and the
  error raised has no cause.
\<close>

lemma extract_invoice_no_attempt:
  "ps \<noteq> [] \<Longrightarrow> map_exn (encode_image E w) ps = Inr enc \<Longrightarrow> max_request_retries S \<le> 0 \<Longrightarrow>
   extract_invoice E S ps w = (Inl (OCRClientError ''OCR failed after retries'' None), w)"
  by (simp add: extract_invoice_def)

section \<open>The pipeline and the rasterizer\<close>

text \<open>
  Neither the rasterizer nor the client calls \<open>cleanup\<close> or writes to the debug log.
\<close>

lemma save_pages_cleanups:
  "save_pages t i ims ps w = (ps', w') \<Longrightarrow>
   cleanups w' = cleanups w \<and> debug_log w' = debug_log w \<and> posts w' = posts w \<and> warning_log w' = warning_log w"
  by (induction t i ims ps w arbitrary: ps' w' rule: save_pages.induct) auto

lemma pdf_bytes_to_images_keeps:
  "pdf_bytes_to_images E pdf dpi w = (r, w') \<Longrightarrow>
   cleanups w' = cleanups w \<and> debug_log w' = debug_log w \<and> posts w' = posts w \<and> warning_log w' = warning_log w"
  by (auto simp: pdf_bytes_to_images_def Let_def split: sum.splits prod.splits dest: save_pages_cleanups)

lemma retry_loop_keeps:
  "retry_loop E S enc as le w = (r, w') \<Longrightarrow>
   cleanups w' = cleanups w \<and> debug_log w' = debug_log w \<and> files w' = files w \<and> next_tmp w' = next_tmp w"
  by (induction as arbitrary: le w) (auto simp: retry_loop.simps(2) post_completion_def split: sum.splits if_splits)

lemma extract_invoice_keeps:
  "extract_invoice E S ps w = (r, w') \<Longrightarrow>
   cleanups w' = cleanups w \<and> debug_log w' = debug_log w \<and> files w' = files w \<and> next_tmp w' = next_tmp w"
  by (auto simp: extract_invoice_def split: sum.splits if_splits dest: retry_loop_keeps)

text \<open>
  Claim C3. Whenever the rasterizer has returned, \<open>run\<close> calls \<open>cleanup\<close> exactly
  once, on the directory of this run, whatever the OCR client does (a record, an
  \<open>OCRClientError\<close> or any other exception); what \<open>run\<close> returns or raises is
  what \<open>extract_invoice\<close> returned or raised; and an exception of \<open>cleanup\<close> goes to
  the debug log and nowhere else.
\<close>

theorem run_cleanup_once:
  "pdf_bytes_to_images E pdf (pdf_raster_dpi S) w = (Inr r, w1) \<Longrightarrow>
   fst (run E S pdf w) = fst (extract_invoice E S (image_paths r) w1) \<and>
   cleanups (snd (run E S pdf w)) = cleanups w @ [tmpdir r] \<and>
   debug_log (snd (run E S pdf w)) =
     debug_log w @ (case tmp_cleanup E (tmpdir r) of None \<Rightarrow> [] | Some exc \<Rightarrow> [exc])"
proof -
  assume a: "pdf_bytes_to_images E pdf (pdf_raster_dpi S) w = (Inr r, w1)"
  obtain res w2 where e: "extract_invoice E S (image_paths r) w1 = (res, w2)"
    by (cases "extract_invoice E S (image_paths r) w1")
  from a have k1: "cleanups w1 = cleanups w" "debug_log w1 = debug_log w"
    using pdf_bytes_to_images_keeps by blast+
  from e have k2: "cleanups w2 = cleanups w1" "debug_log w2 = debug_log w1"
    using extract_invoice_keeps by blast+
  show ?thesis
    using a e k1 k2
    by (simp add: run_def run_finally_def cleanup_def Let_def split: option.splits)
qed

theorem run_cleanup_once_witness:
  "fst (run env_broken_cleanup default_Settings ''%PDF-1page'' world0) =
     Inl (OCRClientError ''OCR failed after retries'' (Some (HTTPError ''ConnectError''))) \<and>
   cleanups (snd (run env_broken_cleanup default_Settings ''%PDF-1page'' world0)) = [0] \<and>
   debug_log (snd (run env_broken_cleanup default_Settings ''%PDF-1page'' world0)) =
     [OSError ''PermissionError'']"
proof -
  let ?r = "\<lparr>image_paths = [PagePath 0 1], tmpdir = 0\<rparr>"
  let ?p = "pdf_bytes_to_images env_broken_cleanup ''%PDF-1page'' (pdf_raster_dpi default_Settings) world0"
  have f: "fst ?p = Inr ?r" by code_simp
  have h: "?p = (Inr ?r, snd ?p)" using f by (metis prod.collapse)
  have x: "fst (extract_invoice env_broken_cleanup default_Settings (image_paths ?r) (snd ?p)) =
    Inl (OCRClientError ''OCR failed after retries'' (Some (HTTPError ''ConnectError'')))"
    by code_simp
  have c: "tmp_cleanup env_broken_cleanup (tmpdir ?r) = Some (OSError ''PermissionError'')"
    by (simp add: env_broken_cleanup_def env0_def)
  have w: "cleanups world0 = []" "debug_log world0 = []" by (simp_all add: world0_def)
  from run_cleanup_once [OF h] x c w show ?thesis by simp
qed

text \<open>
  Claim C10. When the PDF renders to zero pages, the rasterizer returns a
  \<open>RasterizedPDF\<close> with no image path, and \<open>run\<close> raises the client's
  \<open>ValueError('Expected at least one image for OCR')\<close> without a single request
  having been sent.
\<close>

theorem zero_pages_value_error:
  "convert_from_bytes E pdf (pdf_raster_dpi S) = Inr [] \<Longrightarrow>
   fst (pdf_bytes_to_images E pdf (pdf_raster_dpi S) w) = Inr \<lparr>image_paths = [], tmpdir = next_tmp w\<rparr> \<and>
   fst (run E S pdf w) = Inl (ValueError ''Expected at least one image for OCR'') \<and>
   posts (snd (run E S pdf w)) = posts w"
  by (simp add: run_def run_finally_def cleanup_def pdf_bytes_to_images_def extract_invoice_def Let_def split: option.splits)

theorem zero_pages_value_error_witness:
  "fst (run env0 default_Settings ''%PDF-0pages'' world0) =
     Inl (ValueError ''Expected at least one image for OCR'') \<and>
   posts (snd (run env0 default_Settings ''%PDF-0pages'' world0)) = 0"
proof -
  have h: "convert_from_bytes env0 ''%PDF-0pages'' (pdf_raster_dpi default_Settings) = Inr []"
    by (simp add: env0_def)
  have w: "posts world0 = 0" by (simp add: world0_def)
  from zero_pages_value_error [OF h, of world0] w show ?thesis by simp
qed

text \<open>
  Claim C2, as the code has it. When \<open>convert_from_bytes\<close> raises, the rasterizer
  raises that same exception. When it renders zero pages, the rasterizer does not fail:
  it returns a \<open>RasterizedPDF\<close> whose \<open>image_paths\<close> is empty.
\<close>

theorem rasterize_outcomes:
  "(convert_from_bytes E pdf dpi = Inl exc \<longrightarrow> fst (pdf_bytes_to_images E pdf dpi w) = Inl exc) \<and>
   (convert_from_bytes E pdf dpi = Inr [] \<longrightarrow>
      fst (pdf_bytes_to_images E pdf dpi w) = Inr \<lparr>image_paths = [], tmpdir = next_tmp w\<rparr>)"
  by (simp add: pdf_bytes_to_images_def Let_def)

theorem rasterize_outcomes_witness:
  "convert_from_bytes env0 ''not a pdf'' 220 = Inl (Pdf2ImageError ''PDFSyntaxError'') \<and>
   fst (pdf_bytes_to_images env0 ''not a pdf'' 220 world0) = Inl (Pdf2ImageError ''PDFSyntaxError'') \<and>
   convert_from_bytes env0 ''%PDF-0pages'' 220 = Inr [] \<and>
   fst (pdf_bytes_to_images env0 ''%PDF-0pages'' 220 world0) =
     Inr \<lparr>image_paths = [], tmpdir = next_tmp world0\<rparr>"
proof -
  have a: "convert_from_bytes env0 ''not a pdf'' 220 = Inl (Pdf2ImageError ''PDFSyntaxError'')"
    by (simp add: env0_def)
  have b: "convert_from_bytes env0 ''%PDF-0pages'' 220 = Inr []"
    by (simp add: env0_def)
  from rasterize_outcomes [of env0 "''not a pdf''" 220 "Pdf2ImageError ''PDFSyntaxError''" world0] a
  have c: "fst (pdf_bytes_to_images env0 ''not a pdf'' 220 world0) = Inl (Pdf2ImageError ''PDFSyntaxError'')"
    by blast
  from rasterize_outcomes [of env0 "''%PDF-0pages''" 220 _ world0] b
  have d: "fst (pdf_bytes_to_images env0 ''%PDF-0pages'' 220 world0) =
     Inr \<lparr>image_paths = [], tmpdir = next_tmp world0\<rparr>"
    by blast
  from a b c d show ?thesis by blast
qed

text \<open>
  The claim as the specification states it asks for a failure on zero pages. On a PDF
  that renders to no page the rasterizer returns a value.
\<close>

theorem zero_pages_returned_counterexample:
  "convert_from_bytes env0 ''%PDF-0pages'' 220 = Inr [] \<and>
   fst (pdf_bytes_to_images env0 ''%PDF-0pages'' 220 world0) = Inr \<lparr>image_paths = [], tmpdir = 0\<rparr>"
  by (simp add: env0_def pdf_bytes_to_images_def world0_def)

(*THEOREMS*)

section \<open>Response coercion and schema validation\<close>

subsection \<open>Dictionaries and the default filling\<close>

lemma map_of_setdefault:
  "map_of (setdefault kvs k v) k' =
     (case map_of kvs k' of Some x \<Rightarrow> Some x | None \<Rightarrow> if k' = k then Some v else None)"
  by (auto simp: setdefault_def map_add_def split: option.splits)

lemma map_of_dict_replace:
  "map_of (dict_replace kvs k v) k' =
     (if k' = k \<and> map_of kvs k \<noteq> None then Some v else map_of kvs k')"
  by (induction kvs) auto

lemma map_of_dict_remove:
  "map_of (dict_remove ks kvs) k = (if k \<in> set ks then None else map_of kvs k)"
  by (induction kvs) (auto simp: dict_remove_def)

lemma fill_defaults_Inr:
  "fill_defaults S obj = Inr filled \<Longrightarrow> \<exists>kvs fs. obj = JDict kvs \<and> filled = JDict fs"
  by (cases obj) (auto simp: Let_def split: option.splits json.splits)

lemma fill_defaults_lookup:
  assumes "fill_defaults S (JDict kvs) = Inr (JDict fs)"
  shows "map_of fs ''schema_version'' =
           Some (case map_of kvs ''schema_version'' of None \<Rightarrow> JStr ''invoice_v1'' | Some v \<Rightarrow> v)"
    and "map_of fs ''status'' =
           Some (case map_of kvs ''status'' of None \<Rightarrow> JStr ''success'' | Some v \<Rightarrow> v)"
    and "map_of fs ''model'' =
           Some (case map_of kvs ''model'' of None \<Rightarrow> JStr (deepseek_model S) | Some v \<Rightarrow> v)"
    and "map_of fs ''warnings'' =
           Some (case map_of kvs ''warnings'' of None \<Rightarrow> JList [] | Some v \<Rightarrow> v)"
    and "map_of fs ''raw_text'' = map_of kvs ''raw_text''"
    and "\<exists>inner. (case map_of kvs ''data'' of None \<Rightarrow> JDict [] | Some v \<Rightarrow> v) = JDict inner \<and>
           map_of fs ''data'' = Some (JDict (setdefault inner ''totals'' (JDict [])))"
  using assms
  by (auto simp: Let_def map_of_setdefault map_of_dict_replace split: option.splits json.splits)

lemma fill_defaults_ok:
  "map_of kvs ''data'' = None \<or> map_of kvs ''data'' = Some (JDict inner) \<Longrightarrow>
   \<exists>fs. fill_defaults S (JDict kvs) = Inr (JDict fs)"
  by (auto simp: Let_def map_of_setdefault split: option.splits)

lemma parse_completion_dict:
  "completion_content c = Inr (JStr s) \<Longrightarrow> json_loads E s = Some obj \<Longrightarrow>
   parse_completion E S c = bind_exn (fill_defaults S obj) (model_validate (pyd E))"
  by (simp add: parse_completion_def)

lemma parse_completion_Inr:
  assumes "parse_completion E S c = Inr r"
  shows "\<exists>s kvs fs. completion_content c = Inr (JStr s) \<and> json_loads E s = Some (JDict kvs) \<and>
           fill_defaults S (JDict kvs) = Inr (JDict fs) \<and>
           validate_InvoiceOCRResponse (pyd E) (JDict fs) = Some r"
proof -
  from assms obtain content where c: "completion_content c = Inr content"
    by (auto simp: parse_completion_def split: sum.splits if_splits)
  from assms c obtain obj where l: "loads_content E content = Inr obj"
    by (auto simp: parse_completion_def split: sum.splits if_splits)
  from l obtain s where s: "content = JStr s" "json_loads E s = Some obj"
    by (cases content) (auto split: option.splits)
  from assms c l obtain filled where f: "fill_defaults S obj = Inr filled"
    "model_validate (pyd E) filled = Inr r"
    by (auto simp: parse_completion_def bind_exn_def split: sum.splits)
  from f(1) obtain kvs fs where k: "obj = JDict kvs" "filled = JDict fs"
    using fill_defaults_Inr by blast
  from f(2) k have "validate_InvoiceOCRResponse (pyd E) (JDict fs) = Some r"
    by (auto simp: model_validate_def split: option.splits)
  with c s k f show ?thesis by auto
qed

subsection \<open>Lists of validated elements\<close>

lemma those_map_None:
  "x \<in> set xs \<Longrightarrow> v x = None \<Longrightarrow> those (map v xs) = None"
  by (induction xs) (auto split: option.splits)

lemma those_map_all:
  "those (map v xs) = Some ys \<Longrightarrow> y \<in> set ys \<Longrightarrow> \<exists>x \<in> set xs. v x = Some y"
  by (induction xs arbitrary: ys) (auto split: option.splits)

subsection \<open>The schema version of a returned record\<close>

lemma validated_schema_version:
  "validate_InvoiceOCRResponse P (JDict fs) = Some r \<Longrightarrow>
   map_of fs ''schema_version'' = Some j \<Longrightarrow> j = JStr (schema_version r)"
  by (cases j) (auto simp: field_default_def bind_eq_Some_conv)

lemma parse_completion_schema_version:
  assumes "parse_completion E S c = Inr r"
  shows "\<exists>s kvs. completion_content c = Inr (JStr s) \<and> json_loads E s = Some (JDict kvs) \<and>
           (case map_of kvs ''schema_version'' of
              None \<Rightarrow> schema_version r = ''invoice_v1''
            | Some v \<Rightarrow> v = JStr (schema_version r))"
proof -
  from parse_completion_Inr [OF assms] obtain s kvs fs where
    h: "completion_content c = Inr (JStr s)" "json_loads E s = Some (JDict kvs)"
       "fill_defaults S (JDict kvs) = Inr (JDict fs)"
       "validate_InvoiceOCRResponse (pyd E) (JDict fs) = Some r"
    by blast
  from fill_defaults_lookup(1) [OF h(3)]
  have "map_of fs ''schema_version'' =
          Some (case map_of kvs ''schema_version'' of None \<Rightarrow> JStr ''invoice_v1'' | Some v \<Rightarrow> v)" .
  from validated_schema_version [OF h(4) this]
  have "(case map_of kvs ''schema_version'' of None \<Rightarrow> JStr ''invoice_v1'' | Some v \<Rightarrow> v) =
          JStr (schema_version r)" .
  then have "case map_of kvs ''schema_version'' of
              None \<Rightarrow> schema_version r = ''invoice_v1''
            | Some v \<Rightarrow> v = JStr (schema_version r)"
    by (auto split: option.splits)
  with h show ?thesis by blast
qed

lemma retry_loop_Inr:
  "fst (retry_loop E S enc as le w) = Inr r \<Longrightarrow>
   \<exists>k<length as. attempt_at E S enc (posts w + k) = Inr r \<and>
     posts (snd (retry_loop E S enc as le w)) = posts w + Suc k"
proof (induction as arbitrary: le w)
  case Nil
  then show ?case by simp
next
  case (Cons a as)
  show ?case
  proof (cases "attempt_at E S enc (posts w)")
    case (Inr p)
    with Cons.prems have "p = r" by (simp add: retry_loop_Cons)
    with Inr have "attempt_at E S enc (posts w + 0) = Inr r \<and>
        posts (snd (retry_loop E S enc (a # as) le w)) = posts w + Suc 0"
      by (simp add: retry_loop_Cons)
    moreover have "0 < length (a # as)" by simp
    ultimately show ?thesis by blast
  next
    case (Inl exc)
    show ?thesis
    proof (cases "retryable exc")
      case True
      let ?w = "w\<lparr>posts := Suc (posts w), warning_log := warning_log w @ [(a, exc)]\<rparr>"
      from Inl True have step: "retry_loop E S enc (a # as) le w = retry_loop E S enc as (Some exc) ?w"
        by (simp add: retry_loop_Cons)
      with Cons.prems have "fst (retry_loop E S enc as (Some exc) ?w) = Inr r" by simp
      from Cons.IH [OF this] obtain k where
        k: "k < length as" "attempt_at E S enc (posts ?w + k) = Inr r"
           "posts (snd (retry_loop E S enc as (Some exc) ?w)) = posts ?w + Suc k"
        by blast
      have "Suc k < length (a # as)" using k(1) by simp
      moreover have "attempt_at E S enc (posts w + Suc k) = Inr r" using k(2) by simp
      moreover have "posts (snd (retry_loop E S enc (a # as) le w)) = posts w + Suc (Suc k)"
        using k(3) step by simp
      ultimately show ?thesis by blast
    next
      case False
      with Inl Cons.prems show ?thesis by (simp add: retry_loop_Cons)
    qed
  qed
qed

text \<open>
  Claim C9, as the code has it. A record returned by \<open>extract_invoice\<close> is what
  \<open>_parse_completion\<close> made of the response to the last request sent for these
  images, one of at most \<open>max_request_retries\<close>; the content of that response
  decoded to a JSON object, and the record's \<open>schema_version\<close> is \<open>invoice_v1\<close>
  when that object has no key \<open>schema_version\<close>, and otherwise the string the object
  gives under that key.
\<close>

theorem schema_version_of_result:
  assumes "fst (extract_invoice E S ps w) = Inr r"
  shows "\<exists>enc k completion s kvs.
           map_exn (encode_image E w) ps = Inr enc \<and>
           k < nat (max_request_retries S) \<and>
           posts (snd (extract_invoice E S ps w)) = posts w + Suc k \<and>
           completion_at E S enc (posts w + k) = Inr completion \<and>
           parse_completion E S completion = Inr r \<and>
           completion_content completion = Inr (JStr s) \<and>
           json_loads E s = Some (JDict kvs) \<and>
           (case map_of kvs ''schema_version'' of
              None \<Rightarrow> schema_version r = ''invoice_v1''
            | Some v \<Rightarrow> v = JStr (schema_version r))"
proof -
  from assms obtain enc where
    m: "map_exn (encode_image E w) ps = Inr enc"
    and x: "extract_invoice E S ps w = retry_loop E S enc [1..max_request_retries S] None w"
    by (auto simp: extract_invoice_def split: if_splits sum.splits)
  from assms x have e: "fst (retry_loop E S enc [1..max_request_retries S] None w) = Inr r"
    by simp
  from retry_loop_Inr [OF e] obtain k where
    k: "k < length [1..max_request_retries S]"
       "attempt_at E S enc (posts w + k) = Inr r"
       "posts (snd (retry_loop E S enc [1..max_request_retries S] None w)) = posts w + Suc k"
    by blast
  from k(1) have kb: "k < nat (max_request_retries S)" by simp
  from k(3) x have p: "posts (snd (extract_invoice E S ps w)) = posts w + Suc k" by simp
  from k(2) obtain completion where
    c: "completion_at E S enc (posts w + k) = Inr completion"
       "parse_completion E S completion = Inr r"
    by (auto simp: attempt_at_def bind_exn_def split: sum.splits)
  from parse_completion_schema_version [OF c(2)] obtain s kvs where
    v: "completion_content completion = Inr (JStr s)" "json_loads E s = Some (JDict kvs)"
       "case map_of kvs ''schema_version'' of
          None \<Rightarrow> schema_version r = ''invoice_v1''
        | Some v \<Rightarrow> v = JStr (schema_version r)"
    by blast
  from m kb p c v show ?thesis by blast
qed

theorem schema_version_of_result_witness:
  "\<exists>enc k completion s kvs.
           map_exn (encode_image env_v2 world1) [PagePath 0 1] = Inr enc \<and>
           k < nat (max_request_retries default_Settings) \<and>
           posts (snd (extract_invoice env_v2 default_Settings [PagePath 0 1] world1)) =
             posts world1 + Suc k \<and>
           completion_at env_v2 default_Settings enc (posts world1 + k) = Inr completion \<and>
           parse_completion env_v2 default_Settings completion = Inr invoice_v2 \<and>
           completion_content completion = Inr (JStr s) \<and>
           json_loads env_v2 s = Some (JDict kvs) \<and>
           (case map_of kvs ''schema_version'' of
              None \<Rightarrow> schema_version invoice_v2 = ''invoice_v1''
            | Some v \<Rightarrow> v = JStr (schema_version invoice_v2))"
proof -
  have "fst (extract_invoice env_v2 default_Settings [PagePath 0 1] world1) = Inr invoice_v2"
    by code_simp
  then show ?thesis by (rule schema_version_of_result)
qed

text \<open>
  The claim as the specification states it fixes the tag. A response that names another
  version is validated and returned with that version.
\<close>

theorem schema_version_v2_counterexample:
  "fst (extract_invoice env_v2 default_Settings [PagePath 0 1] world1) = Inr invoice_v2 \<and>
   schema_version invoice_v2 \<noteq> ''invoice_v1''"
  by code_simp

subsection \<open>Content that is not a JSON object\<close>

text \<open>
  Content that does not decode is turned into an \<open>OCRClientError\<close>, which the loop
  catches. Content that decodes to anything but an object raises \<open>AttributeError\<close> at
  the first \<open>setdefault\<close>, which the loop does not catch.
\<close>

lemma undecodable_content_retried:
  "completion_content c = Inr (JStr s) \<Longrightarrow> json_loads E s = None \<Longrightarrow>
   parse_completion E S c = Inl (OCRClientError ''Model did not return valid JSON'' (Some JSONDecodeError)) \<and>
   retryable (OCRClientError ''Model did not return valid JSON'' (Some JSONDecodeError))"
  by (simp add: parse_completion_def)

lemma non_object_content_escapes:
  "completion_content c = Inr (JStr s) \<Longrightarrow> json_loads E s = Some obj \<Longrightarrow>
   \<forall>kvs. obj \<noteq> JDict kvs \<Longrightarrow>
   parse_completion E S c = Inl AttributeError \<and> \<not> retryable AttributeError"
  by (cases obj) (simp_all add: parse_completion_def bind_exn_def)

text \<open>
  Claim C7, at a response whose content is the JSON array \<open>[]\<close>: \<open>_parse_completion\<close>
  raises \<open>AttributeError\<close>, the retry loop does not catch it, and \<open>extract_invoice\<close>
  raises it after a single request.
\<close>

theorem json_array_content_escapes:
  "parse_completion env_list default_Settings (completion_of (JStr ''[]'')) = Inl AttributeError \<and>
   retryable AttributeError = False \<and>
   fst (extract_invoice env_list default_Settings [PagePath 0 1] world1) = Inl AttributeError \<and>
   posts (snd (extract_invoice env_list default_Settings [PagePath 0 1] world1)) = 1"
  by code_simp

subsection \<open>Numbers that must not be negative\<close>

lemma float_negative_not_ge0: "float_negative f \<Longrightarrow> \<not> float_ge0 f"
  by (cases f) auto

lemma negative_rejected: "negative_value P j \<Longrightarrow> validate_float_ge0 P j = None"
  by (cases j) (auto simp: validate_float_ge0_def float_negative_not_ge0 split: option.splits)

lemma negative_rejected_optional:
  "negative_value P j \<Longrightarrow> validate_optional (validate_float_ge0 P) j = None"
  by (cases j) (auto simp: validate_optional_def negative_rejected)

lemma line_item_negative:
  assumes "negative_value P v"
    and "map_of item ''quantity'' = Some v \<or> map_of item ''unit_price'' = Some v \<or>
         map_of item ''total'' = Some v"
  shows "validate_InvoiceLineItem P (JDict item) = None"
  using assms
  by (auto simp: field_required_def field_default_def negative_rejected
        negative_rejected_optional bind_eq_None_conv split: option.splits)

lemma totals_negative:
  assumes "negative_value P v"
    and "map_of t ''subtotal'' = Some v \<or> map_of t ''tax'' = Some v \<or> map_of t ''total'' = Some v"
  shows "validate_InvoiceTotals P (JDict t) = None"
  using assms
  by (auto simp: field_default_def negative_rejected_optional bind_eq_None_conv
        split: option.splits)

lemma data_bad_line_item:
  assumes "map_of dd ''line_items'' = Some (JList items)" and "x \<in> set items"
    and "validate_InvoiceLineItem P x = None"
  shows "validate_InvoiceData P (JDict dd) = None"
proof -
  have "validate_list (validate_InvoiceLineItem P) (JList items) = None"
    using those_map_None [of x items "validate_InvoiceLineItem P"] assms(2,3) by (simp add: validate_list_def)
  then have "field_default dd ''line_items'' (validate_list (validate_InvoiceLineItem P)) [] = None"
    using assms(1) by (simp add: field_default_def)
  then show ?thesis by (simp add: bind_eq_None_conv)
qed

lemma data_bad_totals:
  assumes "map_of dd ''totals'' = Some t" and "validate_InvoiceTotals P t = None"
  shows "validate_InvoiceData P (JDict dd) = None"
proof -
  have "field_default dd ''totals'' (validate_InvoiceTotals P) default_InvoiceTotals = None"
    using assms by (simp add: field_default_def)
  then show ?thesis by (simp add: bind_eq_None_conv)
qed

lemma response_bad_data:
  assumes "map_of kvs ''data'' = Some d" and "validate_InvoiceData P d = None"
  shows "model_validate P (JDict kvs) = Inl ValidationError"
proof -
  have "field_required kvs ''data'' (validate_InvoiceData P) = None"
    using assms by (simp add: field_required_def)
  then have "validate_InvoiceOCRResponse P (JDict kvs) = None"
    by (simp add: bind_eq_None_conv)
  then show ?thesis by (simp add: model_validate_def)
qed

lemma ge0_validated: "validate_float_ge0 P j = Some f \<Longrightarrow> float_ge0 f"
  by (simp add: validate_float_ge0_def split: option.splits if_splits)

lemma ge0_validated_optional:
  "validate_optional (validate_float_ge0 P) j = Some x \<Longrightarrow> nonneg_opt x"
  by (cases j) (auto simp: validate_optional_def nonneg_opt_def ge0_validated)

lemma field_required_Some:
  "field_required kvs k v = Some x \<Longrightarrow> \<exists>j. map_of kvs k = Some j \<and> v j = Some x"
  by (simp add: field_required_def split: option.splits)

lemma field_default_ge0:
  "field_default kvs k (validate_optional (validate_float_ge0 P)) None = Some x \<Longrightarrow> nonneg_opt x"
proof (cases "map_of kvs k")
  case None
  then show "field_default kvs k (validate_optional (validate_float_ge0 P)) None = Some x \<Longrightarrow> nonneg_opt x"
    by (simp add: field_default_def nonneg_opt_def)
next
  case (Some j)
  then show "field_default kvs k (validate_optional (validate_float_ge0 P)) None = Some x \<Longrightarrow> nonneg_opt x"
    by (simp add: field_default_def ge0_validated_optional)
qed

lemma validated_line_item_nonneg:
  assumes "validate_InvoiceLineItem P j = Some li"
  shows "float_ge0 (quantity li) \<and> float_ge0 (unit_price li) \<and> nonneg_opt (InvoiceLineItem.total li)"
proof -
  from assms obtain kvs where j: "j = JDict kvs" by (cases j) simp_all
  from assms j obtain d q u t where
    f: "field_required kvs ''quantity'' (validate_float_ge0 P) = Some q"
       "field_required kvs ''unit_price'' (validate_float_ge0 P) = Some u"
       "field_default kvs ''total'' (validate_optional (validate_float_ge0 P)) None = Some t"
       "li = \<lparr>description = d, quantity = q, unit_price = u, InvoiceLineItem.total = t\<rparr>"
    by (auto simp: bind_eq_Some_conv)
  from field_required_Some [OF f(1)] have "float_ge0 q" using ge0_validated by blast
  moreover from field_required_Some [OF f(2)] have "float_ge0 u" using ge0_validated by blast
  moreover from field_default_ge0 [OF f(3)] have "nonneg_opt t" .
  ultimately show ?thesis using f(4) by simp
qed

lemma validated_totals_nonneg:
  assumes "validate_InvoiceTotals P j = Some t"
  shows "nonneg_opt (subtotal t) \<and> nonneg_opt (tax t) \<and> nonneg_opt (InvoiceTotals.total t)"
proof -
  from assms obtain kvs where j: "j = JDict kvs" by (cases j) simp_all
  from assms j obtain s x d tt c where
    f: "field_default kvs ''subtotal'' (validate_optional (validate_float_ge0 P)) None = Some s"
       "field_default kvs ''tax'' (validate_optional (validate_float_ge0 P)) None = Some x"
       "field_default kvs ''total'' (validate_optional (validate_float_ge0 P)) None = Some tt"
       "t = \<lparr>subtotal = s, tax = x, discounts = d, InvoiceTotals.total = tt, currency = c\<rparr>"
    by (auto simp: bind_eq_Some_conv)
  from field_default_ge0 [OF f(1)] field_default_ge0 [OF f(2)] field_default_ge0 [OF f(3)] f(4)
  show ?thesis by simp
qed

lemma validated_list_nonneg:
  assumes "field_default dd ''line_items'' (validate_list (validate_InvoiceLineItem P)) [] = Some l"
  shows "list_all (\<lambda>li. float_ge0 (quantity li) \<and> float_ge0 (unit_price li) \<and>
                     nonneg_opt (InvoiceLineItem.total li)) l"
proof (cases "map_of dd ''line_items''")
  case None
  with assms show ?thesis by (simp add: field_default_def)
next
  case (Some j)
  with assms have v: "validate_list (validate_InvoiceLineItem P) j = Some l"
    by (simp add: field_default_def)
  then obtain xs where "those (map (validate_InvoiceLineItem P) xs) = Some l"
    by (cases j) (simp_all add: validate_list_def)
  then have "\<forall>y \<in> set l. \<exists>x \<in> set xs. validate_InvoiceLineItem P x = Some y"
    using those_map_all by fastforce
  then show ?thesis
    unfolding list_all_iff using validated_line_item_nonneg by blast
qed

lemma validated_field_totals_nonneg:
  assumes "field_default dd ''totals'' (validate_InvoiceTotals P) default_InvoiceTotals = Some t"
  shows "nonneg_opt (subtotal t) \<and> nonneg_opt (tax t) \<and> nonneg_opt (InvoiceTotals.total t)"
proof (cases "map_of dd ''totals''")
  case None
  with assms have "t = default_InvoiceTotals" by (simp add: field_default_def)
  then show ?thesis by (simp add: default_InvoiceTotals_def nonneg_opt_def)
next
  case (Some j)
  with assms have "validate_InvoiceTotals P j = Some t" by (simp add: field_default_def)
  then show ?thesis by (rule validated_totals_nonneg)
qed

lemma validated_data_fields:
  assumes "validate_InvoiceData P j = Some d"
  shows "\<exists>dd. j = JDict dd \<and>
     field_default dd ''line_items'' (validate_list (validate_InvoiceLineItem P)) [] = Some (line_items d) \<and>
     field_default dd ''totals'' (validate_InvoiceTotals P) default_InvoiceTotals = Some (totals d)"
proof -
  from assms obtain dd where j: "j = JDict dd" by (cases j) simp_all
  from assms j show ?thesis by (auto simp: bind_eq_Some_conv)
qed

lemma validated_response_data:
  assumes "model_validate P obj = Inr r"
  shows "\<exists>kvs j. obj = JDict kvs \<and> map_of kvs ''data'' = Some j \<and>
           validate_InvoiceData P j = Some (data r)"
proof -
  from assms have v: "validate_InvoiceOCRResponse P obj = Some r"
    by (simp add: model_validate_def split: option.splits)
  then obtain kvs where o: "obj = JDict kvs" by (cases obj) simp_all
  from v o have "field_required kvs ''data'' (validate_InvoiceData P) = Some (data r)"
    by (auto simp: bind_eq_Some_conv)
  from field_required_Some [OF this] o show ?thesis by blast
qed

lemma validated_record_nonnegative:
  assumes "model_validate P obj = Inr r"
  shows "nonnegative_fields r"
proof -
  from validated_response_data [OF assms] obtain j where
    "validate_InvoiceData P j = Some (data r)" by blast
  from validated_data_fields [OF this] obtain dd where
    l: "field_default dd ''line_items'' (validate_list (validate_InvoiceLineItem P)) [] =
          Some (line_items (data r))"
    and t: "field_default dd ''totals'' (validate_InvoiceTotals P) default_InvoiceTotals =
          Some (totals (data r))"
    by blast
  from validated_list_nonneg [OF l] validated_field_totals_nonneg [OF t]
  show ?thesis by (simp add: nonnegative_fields_def)
qed

text \<open>
  Claim C8. A payload in which the quantity, unit price or total of a line item, or the
  subtotal, tax or total of the totals, carries a negative number fails schema validation;
  and in every record that validation returns, all these fields are at least zero.
\<close>

theorem negative_numbers_rejected:
  "(map_of kvs ''data'' = Some (JDict dd) \<and> negative_value P v \<and>
    ((map_of dd ''line_items'' = Some (JList items) \<and> JDict item \<in> set items \<and>
      (map_of item ''quantity'' = Some v \<or> map_of item ''unit_price'' = Some v \<or>
       map_of item ''total'' = Some v)) \<or>
     (map_of dd ''totals'' = Some (JDict t) \<and>
      (map_of t ''subtotal'' = Some v \<or> map_of t ''tax'' = Some v \<or>
       map_of t ''total'' = Some v)))
    \<longrightarrow> model_validate P (JDict kvs) = Inl ValidationError) \<and>
   (model_validate P obj = Inr r \<longrightarrow> nonnegative_fields r)"
proof (intro conjI impI)
  assume h: "map_of kvs ''data'' = Some (JDict dd) \<and> negative_value P v \<and>
    ((map_of dd ''line_items'' = Some (JList items) \<and> JDict item \<in> set items \<and>
      (map_of item ''quantity'' = Some v \<or> map_of item ''unit_price'' = Some v \<or>
       map_of item ''total'' = Some v)) \<or>
     (map_of dd ''totals'' = Some (JDict t) \<and>
      (map_of t ''subtotal'' = Some v \<or> map_of t ''tax'' = Some v \<or>
       map_of t ''total'' = Some v)))"
  then have d: "map_of kvs ''data'' = Some (JDict dd)" and n: "negative_value P v" by blast+
  from h consider
    (items) "map_of dd ''line_items'' = Some (JList items)" "JDict item \<in> set items"
      "map_of item ''quantity'' = Some v \<or> map_of item ''unit_price'' = Some v \<or>
       map_of item ''total'' = Some v"
  | (totals) "map_of dd ''totals'' = Some (JDict t)"
      "map_of t ''subtotal'' = Some v \<or> map_of t ''tax'' = Some v \<or> map_of t ''total'' = Some v"
    by blast
  then have "validate_InvoiceData P (JDict dd) = None"
  proof cases
    case items
    from line_item_negative [OF n items(3)] have "validate_InvoiceLineItem P (JDict item) = None" .
    from data_bad_line_item [OF items(1) items(2) this] show ?thesis .
  next
    case totals
    from totals_negative [OF n totals(2)] have "validate_InvoiceTotals P (JDict t) = None" .
    from data_bad_totals [OF totals(1) this] show ?thesis .
  qed
  from response_bad_data [OF d this]
  show "model_validate P (JDict kvs) = Inl ValidationError" .
next
  assume "model_validate P obj = Inr r"
  then show "nonnegative_fields r" by (rule validated_record_nonnegative)
qed

theorem negative_numbers_rejected_witness:
  "model_validate pydantic0 (JDict (payload_of (line_item_json (JFloat (Fin (- 5)))))) =
     Inl ValidationError \<and>
   nonnegative_fields invoice_widget"
proof -
  let ?v = "JFloat (Fin (- 5))"
  let ?item = "[(''description'', JStr ''Widget''), (''quantity'', JInt 2), (''unit_price'', ?v)]"
  let ?dd = "[(''line_items'', JList [JDict ?item])]"
  have h: "map_of (payload_of (line_item_json ?v)) ''data'' = Some (JDict ?dd) \<and>
    negative_value pydantic0 ?v \<and>
    ((map_of ?dd ''line_items'' = Some (JList [JDict ?item]) \<and> JDict ?item \<in> set [JDict ?item] \<and>
      (map_of ?item ''quantity'' = Some ?v \<or> map_of ?item ''unit_price'' = Some ?v \<or>
       map_of ?item ''total'' = Some ?v)) \<or>
     (map_of ?dd ''totals'' = Some (JDict []) \<and>
      (map_of [] ''subtotal'' = Some ?v \<or> map_of [] ''tax'' = Some ?v \<or>
       map_of [] ''total'' = Some ?v)))"
    by (simp add: payload_of_def line_item_json_def)
  have g: "model_validate pydantic0 (JDict (payload_of (line_item_json (JInt 5)))) = Inr invoice_widget"
    by code_simp
  from negative_numbers_rejected [of "payload_of (line_item_json ?v)" ?dd pydantic0 ?v
      "[JDict ?item]" ?item "[]" "JDict (payload_of (line_item_json (JInt 5)))" invoice_widget] h g
  show ?thesis by blast
qed

subsection \<open>Boilerplate keys\<close>

lemma validate_InvoiceData_cong:
  assumes "map_of d1 = map_of d2"
  shows "validate_InvoiceData P (JDict d1) = validate_InvoiceData P (JDict d2)"
  using assms by (simp add: field_default_def)

lemma field_default_other:
  "map_of d' = (map_of d)(k' \<mapsto> j) \<Longrightarrow> k \<noteq> k' \<Longrightarrow>
   field_default d' k v x = field_default d k v x"
  by (simp add: field_default_def)

lemma validate_totals_empty: "validate_InvoiceTotals P (JDict []) = Some default_InvoiceTotals"
  by (simp add: field_default_def default_InvoiceTotals_def)

lemma data_totals_default:
  assumes "validate_InvoiceData P (JDict dd) = Some d"
    and "map_of dd' = (map_of dd)(''totals'' \<mapsto> JDict [])"
  shows "validate_InvoiceData P (JDict dd') = Some (d\<lparr>totals := default_InvoiceTotals\<rparr>)"
proof -
  note o = field_default_other [OF assms(2)]
  have t: "field_default dd' ''totals'' (validate_InvoiceTotals P) default_InvoiceTotals =
        Some default_InvoiceTotals"
    using assms(2) validate_totals_empty [of P]
    by (simp add: field_default_def del: validate_InvoiceTotals.simps)
  from assms(1) show ?thesis
    by (auto simp: bind_eq_Some_conv o t)
qed

lemma data_totals_missing:
  assumes "validate_InvoiceData P (JDict dd) = Some d" and "map_of dd ''totals'' = None"
  shows "totals d = default_InvoiceTotals"
proof -
  have "field_default dd ''totals'' (validate_InvoiceTotals P) default_InvoiceTotals =
        Some default_InvoiceTotals"
    using assms(2) by (simp add: field_default_def)
  with assms(1) show ?thesis by (auto simp: bind_eq_Some_conv)
qed

lemma line_item_no_description:
  "map_of item ''description'' = None \<Longrightarrow> validate_InvoiceLineItem P (JDict item) = None"
  by (simp add: field_required_def)

lemma validated_response_fields:
  assumes "validate_InvoiceOCRResponse P (JDict kvs) = Some r"
  shows "field_default kvs ''schema_version'' validate_str ''invoice_v1'' = Some (schema_version r)"
    and "field_default kvs ''status'' validate_status success = Some (status r)"
    and "field_required kvs ''model'' validate_str = Some (model r)"
    and "field_required kvs ''data'' (validate_InvoiceData P) = Some (data r)"
    and "field_default kvs ''warnings'' (validate_list validate_str) [] = Some (warnings r)"
    and "field_default kvs ''raw_text'' (validate_optional validate_str) None =
           Some (InvoiceOCRResponse.raw_text r)"
  using assms by (auto simp: bind_eq_Some_conv)

lemma validated_data_is_dict:
  "validate_InvoiceData P j = Some d \<Longrightarrow> \<exists>dd. j = JDict dd"
  by (cases j) simp_all

lemma filled_validates:
  assumes ks: "set ks \<subseteq> {''schema_version'', ''status'', ''model'', ''warnings''}"
    and v: "validate_InvoiceOCRResponse P (JDict kvs) = Some r"
    and f: "fill_defaults S (JDict (strip_boilerplate ks b kvs)) = Inr (JDict fs)"
  shows "validate_InvoiceOCRResponse P (JDict fs) = Some (with_defaults S ks b r)"
proof -
  note vf = validated_response_fields [OF v]
  from field_required_Some [OF vf(4)] obtain j where
    j: "map_of kvs ''data'' = Some j" "validate_InvoiceData P j = Some (data r)" by blast
  from validated_data_is_dict [OF j(2)] obtain dd where dd: "j = JDict dd" by blast
  let ?top = "dict_remove ks kvs"
  let ?inner = "if b then dict_remove [''totals''] dd else dd"
  let ?kvs' = "strip_boilerplate ks b kvs"
  have nd: "''data'' \<notin> set ks" "''raw_text'' \<notin> set ks" using ks by auto
  have top_data: "map_of ?top ''data'' = Some (JDict dd)"
    using j(1) dd nd by (simp add: map_of_dict_remove)
  have kvs': "?kvs' = (if b then dict_replace ?top ''data'' (JDict (dict_remove [''totals''] dd)) else ?top)"
    using top_data by (simp add: strip_boilerplate_def Let_def)
  have look: "\<And>k. k \<noteq> ''data'' \<Longrightarrow> map_of ?kvs' k = (if k \<in> set ks then None else map_of kvs k)"
    unfolding kvs' by (simp add: map_of_dict_replace map_of_dict_remove)
  have look_data: "map_of ?kvs' ''data'' = Some (JDict ?inner)"
    unfolding kvs' using top_data by (simp add: map_of_dict_replace)
  note fl = fill_defaults_lookup [OF f]
  have sv: "field_default fs ''schema_version'' validate_str ''invoice_v1'' =
              Some (if ''schema_version'' \<in> set ks then ''invoice_v1'' else schema_version r)"
    using fl(1) vf(1) by (auto simp: look field_default_def split: option.splits)
  have st: "field_default fs ''status'' validate_status success =
              Some (if ''status'' \<in> set ks then success else status r)"
    using fl(2) vf(2) by (auto simp: look field_default_def validate_status_def split: option.splits if_splits)
  have mo: "field_required fs ''model'' validate_str =
              Some (if ''model'' \<in> set ks then deepseek_model S else model r)"
    using fl(3) vf(3) by (auto simp: look field_required_def field_default_def split: option.splits)
  have wa: "field_default fs ''warnings'' (validate_list validate_str) [] =
              Some (if ''warnings'' \<in> set ks then [] else warnings r)"
    using fl(4) vf(5) by (auto simp: look field_default_def validate_list_def split: option.splits)
  have rt: "field_default fs ''raw_text'' (validate_optional validate_str) None =
              Some (InvoiceOCRResponse.raw_text r)"
    using fl(5) vf(6) nd(2) by (simp add: look field_default_def)
  from fl(6) look_data have fsd: "map_of fs ''data'' = Some (JDict (setdefault ?inner ''totals'' (JDict [])))"
    by auto
  have vd: "validate_InvoiceData P (JDict dd) = Some (data r)" using j(2) dd by simp
  have dv: "validate_InvoiceData P (JDict (setdefault ?inner ''totals'' (JDict []))) =
              Some (if b then (data r)\<lparr>totals := default_InvoiceTotals\<rparr> else data r)"
  proof (cases "b \<or> map_of dd ''totals'' = None")
    case True
    have m: "map_of (setdefault ?inner ''totals'' (JDict [])) = (map_of dd)(''totals'' \<mapsto> JDict [])"
      using True by (auto simp: map_of_setdefault map_of_dict_remove fun_eq_iff split: option.splits)
    have d: "validate_InvoiceData P (JDict (setdefault ?inner ''totals'' (JDict []))) =
            Some ((data r)\<lparr>totals := default_InvoiceTotals\<rparr>)"
      by (rule data_totals_default [OF vd m])
    show ?thesis
    proof (cases b)
      case True
      with d show ?thesis by simp
    next
      case False
      with True have "map_of dd ''totals'' = None" by simp
      from data_totals_missing [OF vd this] have "(data r)\<lparr>totals := default_InvoiceTotals\<rparr> = data r"
        by simp
      with d False show ?thesis by simp
    qed
  next
    case False
    then have m: "map_of (setdefault ?inner ''totals'' (JDict [])) = map_of dd"
      by (auto simp: map_of_setdefault fun_eq_iff split: option.splits)
    from validate_InvoiceData_cong [OF m, of P] vd False show ?thesis by simp
  qed
  have da: "field_required fs ''data'' (validate_InvoiceData P) =
              Some (if b then (data r)\<lparr>totals := default_InvoiceTotals\<rparr> else data r)"
    using fsd dv by (simp add: field_required_def del: validate_InvoiceData.simps)
  show ?thesis
    by (simp add: sv st mo wa rt da with_defaults_def)
qed

text \<open>
  Claim C4. Take a payload that validates and leave out any of the keys
  \<open>schema_version\<close>, \<open>status\<close>, \<open>model\<close>, \<open>warnings\<close> and the nested
  \<open>data.totals\<close>: \<open>_parse_completion\<close> succeeds on it, and returns the record of the
  full payload with the defaults in exactly the places left out. A response with a line
  item that has no \<open>description\<close> fails with \<open>ValidationError\<close>.
\<close>

theorem boilerplate_defaults_filled:
  "(set ks \<subseteq> {''schema_version'', ''status'', ''model'', ''warnings''} \<and>
    model_validate (pyd E) (JDict kvs) = Inr r \<and>
    completion_content c = Inr (JStr s) \<and>
    json_loads E s = Some (JDict (strip_boilerplate ks no_totals kvs))
    \<longrightarrow> parse_completion E S c = Inr (with_defaults S ks no_totals r)) \<and>
   (completion_content c' = Inr (JStr s') \<and>
    json_loads E s' = Some (JDict kvs') \<and>
    map_of kvs' ''data'' = Some (JDict dd) \<and>
    map_of dd ''line_items'' = Some (JList items) \<and>
    JDict item \<in> set items \<and> map_of item ''description'' = None
    \<longrightarrow> parse_completion E S c' = Inl ValidationError)"
proof (intro conjI impI)
  assume h: "set ks \<subseteq> {''schema_version'', ''status'', ''model'', ''warnings''} \<and>
    model_validate (pyd E) (JDict kvs) = Inr r \<and>
    completion_content c = Inr (JStr s) \<and>
    json_loads E s = Some (JDict (strip_boilerplate ks no_totals kvs))"
  then have ks: "set ks \<subseteq> {''schema_version'', ''status'', ''model'', ''warnings''}" by blast
  from h have v: "validate_InvoiceOCRResponse (pyd E) (JDict kvs) = Some r"
    by (simp add: model_validate_def split: option.splits)
  from field_required_Some [OF validated_response_fields(4) [OF v]] obtain j where
    j: "map_of kvs ''data'' = Some j" "validate_InvoiceData (pyd E) j = Some (data r)" by blast
  from validated_data_is_dict [OF j(2)] obtain d0 where d0: "j = JDict d0" by blast
  have nd: "''data'' \<notin> set ks" using ks by auto
  have top: "map_of (dict_remove ks kvs) ''data'' = Some (JDict d0)"
    using j(1) d0 nd by (simp add: map_of_dict_remove)
  have "\<exists>inner. map_of (strip_boilerplate ks no_totals kvs) ''data'' = Some (JDict inner)"
    using top by (simp add: strip_boilerplate_def Let_def map_of_dict_replace)
  then obtain fs where
    f: "fill_defaults S (JDict (strip_boilerplate ks no_totals kvs)) = Inr (JDict fs)"
    using fill_defaults_ok by blast
  from filled_validates [OF ks v f]
  have "model_validate (pyd E) (JDict fs) = Inr (with_defaults S ks no_totals r)"
    by (simp add: model_validate_def)
  with h f show "parse_completion E S c = Inr (with_defaults S ks no_totals r)"
    by (simp add: parse_completion_dict bind_exn_def)
next
  assume h: "completion_content c' = Inr (JStr s') \<and>
    json_loads E s' = Some (JDict kvs') \<and>
    map_of kvs' ''data'' = Some (JDict dd) \<and>
    map_of dd ''line_items'' = Some (JList items) \<and>
    JDict item \<in> set items \<and> map_of item ''description'' = None"
  then obtain fs where f: "fill_defaults S (JDict kvs') = Inr (JDict fs)"
    using fill_defaults_ok by blast
  from fill_defaults_lookup(6) [OF f] h
  have fd: "map_of fs ''data'' = Some (JDict (setdefault dd ''totals'' (JDict [])))" by auto
  have li: "map_of (setdefault dd ''totals'' (JDict [])) ''line_items'' = Some (JList items)"
    using h by (simp add: map_of_setdefault)
  have it: "JDict item \<in> set items" using h by blast
  have "validate_InvoiceLineItem (pyd E) (JDict item) = None"
    using h line_item_no_description by blast
  from data_bad_line_item [OF li it this]
  have "validate_InvoiceData (pyd E) (JDict (setdefault dd ''totals'' (JDict []))) = None" .
  from response_bad_data [OF fd this]
  have "model_validate (pyd E) (JDict fs) = Inl ValidationError" .
  with h f show "parse_completion E S c' = Inl ValidationError"
    by (simp add: parse_completion_dict bind_exn_def)
qed

theorem boilerplate_defaults_filled_witness:
  "parse_completion env0 default_Settings (completion_of (JStr ''inv_ok'')) = Inr invoice_ok \<and>
   parse_completion env_no_description default_Settings (completion_of (JStr ''inv'')) =
     Inl ValidationError"
proof -
  have k: "set boilerplate_keys \<subseteq> {''schema_version'', ''status'', ''model'', ''warnings''}"
    by (simp add: boilerplate_keys_def)
  have v: "model_validate (pyd env0) (JDict full_payload) = Inr invoice_full" by code_simp
  have c: "completion_content (completion_of (JStr ''inv_ok'')) = Inr (JStr ''inv_ok'')"
    by code_simp
  have l: "json_loads env0 ''inv_ok'' = Some (JDict (strip_boilerplate boilerplate_keys True full_payload))"
    by code_simp
  have w: "with_defaults default_Settings boilerplate_keys True invoice_full = invoice_ok"
    by code_simp
  have a: "parse_completion env0 default_Settings (completion_of (JStr ''inv_ok'')) = Inr invoice_ok"
    using boilerplate_defaults_filled [of boilerplate_keys env0 full_payload invoice_full
        "completion_of (JStr ''inv_ok'')" "''inv_ok''" True default_Settings] k v c l w
    by simp
  let ?item = "[(''quantity'', JInt 1), (''unit_price'', JInt 5)]"
  let ?dd = "[(''line_items'', JList [JDict ?item])]"
  have c': "completion_content (completion_of (JStr ''inv'')) = Inr (JStr ''inv'')" by code_simp
  have l': "json_loads env_no_description ''inv'' = Some (JDict (payload_of (JDict ?item)))"
    by (simp add: env_no_description_def)
  have h: "map_of (payload_of (JDict ?item)) ''data'' = Some (JDict ?dd) \<and>
      map_of ?dd ''line_items'' = Some (JList [JDict ?item]) \<and>
      JDict ?item \<in> set [JDict ?item] \<and> map_of ?item ''description'' = None"
    by (simp add: payload_of_def)
  have b: "parse_completion env_no_description default_Settings (completion_of (JStr ''inv'')) =
     Inl ValidationError"
    using boilerplate_defaults_filled [of _ env_no_description _ _ _ _ _ default_Settings
        "completion_of (JStr ''inv'')" "''inv''" "payload_of (JDict ?item)" ?dd "[JDict ?item]" ?item]
      c' l' h
    by blast
  from a b show ?thesis by blast
qed

section \<open>The semantic index\<close>













lemma collect_results_filter:
  "collect_results xs entries acc =
     acc @ map (\<lambda>(idx, sc). \<lparr>score = sc, invoice = payload (entries ! nat idx)\<rparr>)
             (filter (\<lambda>(idx, sc). 0 \<le> idx \<and> idx < int (length entries)) xs)"
  by (induction xs entries acc rule: collect_results.induct) auto

lemma query_uninitialized: "index st = None \<Longrightarrow> query E q k st = Inr []"
  by (simp add: query_def)

lemma index_calls_append:
  "index_calls E (cs @ ds) st = index_calls E ds (index_calls E cs st)"
  by (induction cs arbitrary: st) simp_all

text \<open>
  Claim C6. \<open>query\<close> returns the empty list when there is no index: on a new index,
  and after \<open>drop\<close> whatever was added before. Otherwise, for a positive
  \<open>top_k\<close> and a search that returns \<open>top_k\<close> positions, \<open>query\<close> returns at
  most \<open>top_k\<close> results: one for each returned position, in order, that is neither
  negative nor beyond the store, with the payload stored at that position.
\<close>

theorem query_results:
  "(index st = None \<longrightarrow> query E q k st = Inr []) \<and>
   query E q k (init_index m) = Inr [] \<and>
   query E q k (drop_index st) = Inr [] \<and>
   query E q k (index_calls E (calls @ [Drop]) (init_index m)) = Inr [] \<and>
   (0 < k \<and> index st = Some ix \<and> encode E [q] = Inr emb \<and>
    search E ix emb k = Inr (ds # D, ls # I) \<and> length ls = nat k
    \<longrightarrow> query E q k st =
          Inr (map (\<lambda>(idx, sc). \<lparr>score = sc, invoice = payload (store st ! nat idx)\<rparr>)
                 (filter (\<lambda>(idx, sc). 0 \<le> idx \<and> idx < int (length (store st))) (zip ls ds))) \<and>
        length (filter (\<lambda>(idx, sc). 0 \<le> idx \<and> idx < int (length (store st))) (zip ls ds))
          \<le> nat k)"
proof (intro conjI impI)
  assume "index st = None"
  then show "query E q k st = Inr []" by (rule query_uninitialized)
next
  show "query E q k (init_index m) = Inr []"
    by (simp add: query_uninitialized init_index_def)
next
  show "query E q k (drop_index st) = Inr []"
    by (simp add: query_uninitialized drop_index_def)
next
  show "query E q k (index_calls E (calls @ [Drop]) (init_index m)) = Inr []"
    by (simp add: index_calls_append query_uninitialized drop_index_def)
next
  assume h: "0 < k \<and> index st = Some ix \<and> encode E [q] = Inr emb \<and>
    search E ix emb k = Inr (ds # D, ls # I) \<and> length ls = nat k"
  then show "query E q k st =
          Inr (map (\<lambda>(idx, sc). \<lparr>score = sc, invoice = payload (store st ! nat idx)\<rparr>)
                 (filter (\<lambda>(idx, sc). 0 \<le> idx \<and> idx < int (length (store st))) (zip ls ds)))"
    by (simp add: query_def bind_exn_def collect_results_filter)
next
  assume h: "0 < k \<and> index st = Some ix \<and> encode E [q] = Inr emb \<and>
    search E ix emb k = Inr (ds # D, ls # I) \<and> length ls = nat k"
  have "length (filter (\<lambda>(idx, sc). 0 \<le> idx \<and> idx < int (length (store st))) (zip ls ds))
          \<le> length (zip ls ds)"
    by (rule length_filter_le)
  also have "\<dots> \<le> length ls" by simp
  finally show "length (filter (\<lambda>(idx, sc). 0 \<le> idx \<and> idx < int (length (store st))) (zip ls ds))
          \<le> nat k"
    using h by simp
qed

theorem query_results_witness:
  "query index_env0 ''vendor Acme'' 3 (init_index ''all-MiniLM-L6-v2'') = Inr [] \<and>
   query index_env0 ''vendor Acme'' 3 index_two = Inr [\<lparr>score = Fin 3, invoice = ''invoice_v2''\<rparr>]"
proof -
  let ?ix = "\<lparr>faiss_d = 2, vectors = [10, 10 :: nat]\<rparr>"
  have i: "index index_two = Some ?ix" unfolding index_two_def by code_simp
  have s: "store index_two =
     [\<lparr>payload = ''invoice_v1'', raw_text = ''invoice_v1''\<rparr>,
      \<lparr>payload = ''invoice_v2'', raw_text = ''invoice_v2''\<rparr>]"
    unfolding index_two_def by code_simp
  have e: "encode index_env0 [''vendor Acme''] = Inr (Array2 2 [11])"
    by (simp add: index_env0_def)
  have r: "search index_env0 ?ix (Array2 2 [11]) 3 =
      Inr ([Fin 3, Fin 2, Fin 1] # [], [1, - 1, 7] # [])"
    by (simp add: index_env0_def)
  have h: "0 < (3::int) \<and> index index_two = Some ?ix \<and>
      encode index_env0 [''vendor Acme''] = Inr (Array2 2 [11]) \<and>
      search index_env0 ?ix (Array2 2 [11]) 3 = Inr ([Fin 3, Fin 2, Fin 1] # [], [1, - 1, 7] # []) \<and>
      length [1, - 1, 7 :: int] = nat 3"
    using i e r by simp
  note Q = query_results [of index_two index_env0 "''vendor Acme''" 3 "''all-MiniLM-L6-v2''" "[]"
      ?ix "Array2 2 [11]" "[Fin 3, Fin 2, Fin 1]" "[]" "[1, - 1, 7]" "[]"]
  from Q have a: "query index_env0 ''vendor Acme'' 3 (init_index ''all-MiniLM-L6-v2'') = Inr []"
    by blast
  from Q h have "query index_env0 ''vendor Acme'' 3 index_two =
          Inr (map (\<lambda>(idx, sc). \<lparr>score = sc, invoice = payload (store index_two ! nat idx)\<rparr>)
                 (filter (\<lambda>(idx, sc). 0 \<le> idx \<and> idx < int (length (store index_two)))
                    (zip [1, - 1, 7] [Fin 3, Fin 2, Fin 1])))"
    by blast
  then have b: "query index_env0 ''vendor Acme'' 3 index_two =
      Inr [\<lparr>score = Fin 3, invoice = ''invoice_v2''\<rparr>]"
    by (simp add: s)
  from a b show ?thesis by blast
qed

end
